theory Spec2Isabelle
  imports Main "HOL-Library.Word"
begin

unbundle bit_operations_syntax

section \<open>Bytes, strings, sizes and errors\<close>

text \<open>
  An \<^verbatim>\<open>unsigned char\<close> is an 8-bit word. A buffer handed over as a pointer is the list of
  the bytes from that pointer on; advancing the pointer drops bytes from the front. A
  \<^verbatim>\<open>std::string\<close> and a \<^verbatim>\<open>blob_t\<close> are byte lists (they may hold any byte, NUL
  included). A \<^verbatim>\<open>const char *\<close> argument is the list of the bytes before its terminating
  NUL, so \<^verbatim>\<open>strlen\<close> is the length of that list.
\<close>

type_synonym byte = "8 word"
type_synonym blob_t = "byte list"

definition cstr :: "string \<Rightarrow> byte list" where
  "cstr s = map of_char s"

definition strlen :: "byte list \<Rightarrow> nat" where
  "strlen s = length s"

text \<open>
  \<^verbatim>\<open>size_t\<close> is taken to be 64 bits wide; sizes are natural numbers and the one place
  where the source adds sizes that a caller chooses (\<^verbatim>\<open>property_len\<close>) wraps around as
  the machine does. All subtractions of the source are guarded by a comparison first.
\<close>

definition size_t_wrap :: "nat \<Rightarrow> nat" where
  "size_t_wrap n = n mod 2 ^ 64"

text \<open>
  \<^verbatim>\<open>AssertFailed\<close>: a \<^verbatim>\<open>zmq_assert\<close> failed and the process aborted.
  \<^verbatim>\<open>EPROTO\<close>, \<^verbatim>\<open>EINVAL\<close>: \<^verbatim>\<open>parse_metadata\<close> returned -1 with this errno.
  \<^verbatim>\<open>PropertyRejected\<close>: \<^verbatim>\<open>parse_metadata\<close> returned -1 because the virtual
  \<^verbatim>\<open>property\<close> returned -1 (errno is whatever that call left).
\<close>

datatype error = AssertFailed | EPROTO | EINVAL | PropertyRejected

text \<open>
  Modelled from the spec: \<^verbatim>\<open>put_uint32\<close> and \<^verbatim>\<open>get_uint32\<close> of wire.hpp, which is not
  among the sources. The spec fixes the value length as four bytes, big-endian.
\<close>

definition put_uint32 :: "32 word \<Rightarrow> byte list" where
  "put_uint32 v = [ucast (drop_bit 24 v), ucast (drop_bit 16 v), ucast (drop_bit 8 v), ucast v]"

definition get_uint32 :: "byte list \<Rightarrow> 32 word" where
  "get_uint32 b =
     push_bit 24 (ucast (b ! 0)) OR push_bit 16 (ucast (b ! 1))
       OR push_bit 8 (ucast (b ! 2)) OR ucast (b ! 3)"

text \<open>
  \<^verbatim>\<open>memcpy (dst + off, src, n)\<close> on a destination region \<open>dst\<close>: the bytes before
  \<open>off\<close> and from \<open>off + n\<close> on are kept.
\<close>

definition memcpy :: "byte list \<Rightarrow> nat \<Rightarrow> byte list \<Rightarrow> nat \<Rightarrow> byte list" where
  "memcpy dst off src n = take off dst @ take n src @ drop (off + n) dst"

section \<open>Configuration and mechanism state\<close>

text \<open>
  Modelled from the spec: the role codes of zmq.h, which is not among the sources. The
  spec's fixed role name table gives the code of each role; it is the order of the
  \<^verbatim>\<open>names\<close> array of \<^verbatim>\<open>socket_type_string\<close>.
\<close>

abbreviation ZMQ_PAIR :: int where "ZMQ_PAIR \<equiv> 0"
abbreviation ZMQ_PUB :: int where "ZMQ_PUB \<equiv> 1"
abbreviation ZMQ_SUB :: int where "ZMQ_SUB \<equiv> 2"
abbreviation ZMQ_REQ :: int where "ZMQ_REQ \<equiv> 3"
abbreviation ZMQ_REP :: int where "ZMQ_REP \<equiv> 4"
abbreviation ZMQ_DEALER :: int where "ZMQ_DEALER \<equiv> 5"
abbreviation ZMQ_ROUTER :: int where "ZMQ_ROUTER \<equiv> 6"
abbreviation ZMQ_PULL :: int where "ZMQ_PULL \<equiv> 7"
abbreviation ZMQ_PUSH :: int where "ZMQ_PUSH \<equiv> 8"
abbreviation ZMQ_XPUB :: int where "ZMQ_XPUB \<equiv> 9"
abbreviation ZMQ_XSUB :: int where "ZMQ_XSUB \<equiv> 10"
abbreviation ZMQ_STREAM :: int where "ZMQ_STREAM \<equiv> 11"
abbreviation ZMQ_SERVER :: int where "ZMQ_SERVER \<equiv> 12"
abbreviation ZMQ_CLIENT :: int where "ZMQ_CLIENT \<equiv> 13"
abbreviation ZMQ_RADIO :: int where "ZMQ_RADIO \<equiv> 14"
abbreviation ZMQ_DISH :: int where "ZMQ_DISH \<equiv> 15"
abbreviation ZMQ_GATHER :: int where "ZMQ_GATHER \<equiv> 16"
abbreviation ZMQ_SCATTER :: int where "ZMQ_SCATTER \<equiv> 17"
abbreviation ZMQ_DGRAM :: int where "ZMQ_DGRAM \<equiv> 18"

text \<open>
  Modelled from the spec: the key \<^verbatim>\<open>ZMQ_MSG_PROPERTY_USER_ID\<close> of zmq.h, which the spec
  gives as "User-Id".
\<close>

definition ZMQ_MSG_PROPERTY_USER_ID :: "byte list" where
  "ZMQ_MSG_PROPERTY_USER_ID = cstr ''User-Id''"

definition ZMTP_PROPERTY_SOCKET_TYPE :: "byte list" where
  "ZMTP_PROPERTY_SOCKET_TYPE = cstr ''Socket-Type''"

definition ZMTP_PROPERTY_IDENTITY :: "byte list" where
  "ZMTP_PROPERTY_IDENTITY = cstr ''Identity''"

text \<open>
  Modelled from the spec: the fields of \<^verbatim>\<open>options_t\<close> (options.hpp is not among the
  sources) that this file reads: the local role, the local routing identifier with its
  size, and whether the peer's routing identifier is received.
\<close>

record options_t =
  type :: int
  routing_id_size :: nat
  routing_id :: "byte list"
  recv_routing_id :: bool

text \<open>
  Modelled from the spec: \<^verbatim>\<open>metadata_t::dict_t\<close> and its \<^verbatim>\<open>insert\<close> (metadata.hpp is
  not among the sources). The specification has a property dictionary as a mapping from
  property name to value with unique keys, where the last write wins: inserting a pair
  maps the name to that value, whether or not the name was present.
\<close>

type_synonym dict_t = "byte list \<rightharpoonup> byte list"

definition dict_insert :: "byte list \<Rightarrow> byte list \<Rightarrow> dict_t \<Rightarrow> dict_t" where
  "dict_insert k v d = d(k \<mapsto> v)"

text \<open>
  The members of \<^verbatim>\<open>mechanism_t\<close>. \<open>peer_id\<close> is the member \<^verbatim>\<open>routing_id\<close> (the peer's
  routing identifier; renamed, since the configuration has a field of that name), and
  \<open>derived\<close> stands for the members of a derived mechanism class, which an override of
  the virtual \<^verbatim>\<open>property\<close> may read and update.
\<close>

record 'h mechanism_t =
  peer_id :: blob_t
  user_id :: blob_t
  zmtp_properties :: dict_t
  zap_properties :: dict_t
  derived :: 'h

section \<open>Identity store\<close>

definition set_peer_routing_id :: "byte list \<Rightarrow> nat \<Rightarrow> 'h mechanism_t \<Rightarrow> 'h mechanism_t" where
  "set_peer_routing_id id_ptr id_size m = m\<lparr>peer_id := take id_size id_ptr\<rparr>"

definition set_user_id :: "byte list \<Rightarrow> nat \<Rightarrow> 'h mechanism_t \<Rightarrow> 'h mechanism_t" where
  "set_user_id data data_size m =
     m\<lparr>user_id := take data_size data,
       zap_properties :=
         dict_insert ZMQ_MSG_PROPERTY_USER_ID (take data_size data) (zap_properties m)\<rparr>"

definition get_user_id :: "'h mechanism_t \<Rightarrow> blob_t" where
  "get_user_id m = user_id m"

section \<open>Role names and the compatibility check\<close>



definition check_socket_type :: "options_t \<Rightarrow> byte list \<Rightarrow> bool" where
  "check_socket_type opts peer_type =
     (if type opts = ZMQ_REQ then peer_type = cstr ''REP'' \<or> peer_type = cstr ''ROUTER''
      else if type opts = ZMQ_REP then peer_type = cstr ''REQ'' \<or> peer_type = cstr ''DEALER''
      else if type opts = ZMQ_DEALER then
        peer_type = cstr ''REP'' \<or> peer_type = cstr ''DEALER'' \<or> peer_type = cstr ''ROUTER''
      else if type opts = ZMQ_ROUTER then
        peer_type = cstr ''REQ'' \<or> peer_type = cstr ''DEALER'' \<or> peer_type = cstr ''ROUTER''
      else if type opts = ZMQ_PUSH then peer_type = cstr ''PULL''
      else if type opts = ZMQ_PULL then peer_type = cstr ''PUSH''
      else if type opts = ZMQ_PUB then peer_type = cstr ''SUB'' \<or> peer_type = cstr ''XSUB''
      else if type opts = ZMQ_SUB then peer_type = cstr ''PUB'' \<or> peer_type = cstr ''XPUB''
      else if type opts = ZMQ_XPUB then peer_type = cstr ''SUB'' \<or> peer_type = cstr ''XSUB''
      else if type opts = ZMQ_XSUB then peer_type = cstr ''PUB'' \<or> peer_type = cstr ''XPUB''
      else if type opts = ZMQ_PAIR then peer_type = cstr ''PAIR''
      else if type opts = ZMQ_SERVER then peer_type = cstr ''CLIENT''
      else if type opts = ZMQ_CLIENT then peer_type = cstr ''SERVER''
      else if type opts = ZMQ_RADIO then peer_type = cstr ''DISH''
      else if type opts = ZMQ_DISH then peer_type = cstr ''RADIO''
      else if type opts = ZMQ_GATHER then peer_type = cstr ''SCATTER''
      else if type opts = ZMQ_SCATTER then peer_type = cstr ''GATHER''
      else if type opts = ZMQ_DGRAM then peer_type = cstr ''DGRAM''
      else False)"

section \<open>Encoding a property\<close>

definition property_len :: "nat \<Rightarrow> nat \<Rightarrow> nat" where
  "property_len name_len value_len = size_t_wrap (1 + name_len + 4 + value_len)"

definition name_len :: "byte list \<Rightarrow> error + nat" where
  "name_len name =
     (let n = strlen name
      in if \<not> n \<le> 255 then Inl AssertFailed else Inr n)"

text \<open>
  \<open>ptr\<close> is the destination region from the pointer on. The result is that region after
  the writes, with the returned count. An assertion that fails aborts the process, so
  nothing is returned then.
\<close>

definition add_property ::
  "byte list \<Rightarrow> nat \<Rightarrow> byte list \<Rightarrow> byte list \<Rightarrow> nat \<Rightarrow> error + (byte list \<times> nat)" where
  "add_property ptr ptr_capacity name value value_len =
     (case name_len name of
        Inl e \<Rightarrow> Inl e
      | Inr n \<Rightarrow>
          let total_len = property_len n value_len in
          if \<not> total_len \<le> ptr_capacity then Inl AssertFailed
          else
            let ptr1 = ptr[0 := of_nat n];
                ptr2 = memcpy ptr1 1 name n
            in if \<not> value_len \<le> 0x7FFFFFFF then Inl AssertFailed
               else
                 let ptr3 = memcpy ptr2 (1 + n) (put_uint32 (of_nat value_len)) 4;
                     ptr4 = memcpy ptr3 (1 + n + 4) value value_len
                 in Inr (ptr4, total_len))"

text \<open>The member \<^verbatim>\<open>mechanism_t::property_len (name, value_len)\<close>.\<close>

definition mechanism_property_len :: "byte list \<Rightarrow> nat \<Rightarrow> error + nat" where
  "mechanism_property_len name value_len =
     (case name_len name of
        Inl e \<Rightarrow> Inl e
      | Inr n \<Rightarrow> Inr (property_len n value_len))"

section \<open>The basic property set\<close>



section \<open>Parsing a property list\<close>

text \<open>
  The virtual \<^verbatim>\<open>property (name, value, length)\<close>: it gets the name and the \<open>length\<close>
  bytes of the value, may read and update the members of the derived class, and returns
  an \<^verbatim>\<open>int\<close>. The default implementation checks nothing and returns 0.
\<close>

type_synonym 'h property_fn = "byte list \<Rightarrow> byte list \<Rightarrow> 'h \<Rightarrow> int \<times> 'h"

definition property :: "'h property_fn" where
  "property name value h = (0, h)"

text \<open>
  Lines 205 to 219 of \<^verbatim>\<open>parse_metadata\<close>: what is done with a decoded property before
  it is recorded. \<open>Inl\<close> is the \<^verbatim>\<open>return -1\<close> inside the loop.
\<close>

definition dispatch ::
  "options_t \<Rightarrow> 'h property_fn \<Rightarrow> byte list \<Rightarrow> byte list \<Rightarrow> nat \<Rightarrow> 'h mechanism_t
     \<Rightarrow> (error + unit) \<times> 'h mechanism_t" where
  "dispatch opts prop name value value_length m =
     (if name = ZMTP_PROPERTY_IDENTITY \<and> recv_routing_id opts then
        (Inr (), set_peer_routing_id value value_length m)
      else if name = ZMTP_PROPERTY_SOCKET_TYPE then
        (let socket_type = take value_length value
         in if \<not> check_socket_type opts socket_type then (Inl EINVAL, m) else (Inr (), m))
      else
        (let (rc, h) = prop name (take value_length value) (derived m)
         in if rc = - 1 then (Inl PropertyRejected, m\<lparr>derived := h\<rparr>)
            else (Inr (), m\<lparr>derived := h\<rparr>)))"

text \<open>Lines 220 to 227: the property goes into the dictionary that the flag selects.\<close>

definition record_property ::
  "bool \<Rightarrow> byte list \<Rightarrow> byte list \<Rightarrow> nat \<Rightarrow> 'h mechanism_t \<Rightarrow> 'h mechanism_t" where
  "record_property zap_flag name value value_length m =
     (if zap_flag then
        m\<lparr>zap_properties := dict_insert name (take value_length value) (zap_properties m)\<rparr>
      else
        m\<lparr>zmtp_properties := dict_insert name (take value_length value) (zmtp_properties m)\<rparr>)"

text \<open>
  One run of the loop body (lines 183 to 227), entered with \<open>bytes_left > 1\<close>. It ends in
  a \<^verbatim>\<open>break\<close> (with the counter as it then stands), in a \<^verbatim>\<open>return -1\<close>, or at the
  end of the body with the advanced pointer and counter.
  The body reads only bytes that the counter covers, so with \<open>bytes_left\<close> at most
  the length of \<open>ptr\<close> no read leaves the list.
\<close>

datatype 'h iteration =
  Break nat "'h mechanism_t"
| Return error "'h mechanism_t"
| Continue "byte list" nat "'h mechanism_t"

definition loop_body ::
  "options_t \<Rightarrow> 'h property_fn \<Rightarrow> bool \<Rightarrow> byte list \<Rightarrow> nat \<Rightarrow> 'h mechanism_t \<Rightarrow> 'h iteration" where
  "loop_body opts prop zap_flag ptr bytes_left m =
     (let name_length = unat (hd ptr);
          ptr1 = drop 1 ptr;
          bytes_left1 = bytes_left - 1
      in if bytes_left1 < name_length then Break bytes_left1 m
         else
           let name = take name_length ptr1;
               ptr2 = drop name_length ptr1;
               bytes_left2 = bytes_left1 - name_length
           in if bytes_left2 < 4 then Break bytes_left2 m
              else
                let value_length = unat (get_uint32 ptr2);
                    ptr3 = drop 4 ptr2;
                    bytes_left3 = bytes_left2 - 4
                in if bytes_left3 < value_length then Break bytes_left3 m
                   else
                     let value = ptr3;
                         ptr4 = drop value_length ptr3;
                         bytes_left4 = bytes_left3 - value_length
                     in case dispatch opts prop name value value_length m of
                          (Inl e, m') \<Rightarrow> Return e m'
                        | (Inr u, m') \<Rightarrow>
                            Continue ptr4 bytes_left4
                              (record_property zap_flag name value value_length m'))"

text \<open>
  The \<^verbatim>\<open>while (bytes_left > 1)\<close> loop. \<open>Inl e\<close>: the function returned -1 from inside
  the loop; \<open>Inr n\<close>: the loop was left with \<open>bytes_left = n\<close>.
\<close>

function parse_loop ::
  "options_t \<Rightarrow> 'h property_fn \<Rightarrow> bool \<Rightarrow> byte list \<Rightarrow> nat \<Rightarrow> 'h mechanism_t
     \<Rightarrow> (error + nat) \<times> 'h mechanism_t" where
  "parse_loop opts prop zap_flag ptr bytes_left m =
     (if bytes_left > 1 then
        (case loop_body opts prop zap_flag ptr bytes_left m of
           Break n m' \<Rightarrow> (Inr n, m')
         | Return e m' \<Rightarrow> (Inl e, m')
         | Continue ptr' bytes_left' m' \<Rightarrow> parse_loop opts prop zap_flag ptr' bytes_left' m')
      else (Inr bytes_left, m))"
  by pat_completeness auto
termination
  by (relation "measure (\<lambda>(opts, prop, zap_flag, ptr, bytes_left, m). bytes_left)")
     (auto simp: loop_body_def Let_def split: if_splits prod.splits sum.splits)

declare parse_loop.simps [simp del]

text \<open>
  \<^verbatim>\<open>parse_metadata (ptr_, length_, zap_flag)\<close> on the mechanism state \<open>m\<close>, with the
  \<^verbatim>\<open>property\<close> of the mechanism's class: \<open>Inr ()\<close> is the return value 0, \<open>Inl e\<close> the
  return value -1, and the state is the one the call leaves behind.
\<close>

definition parse_metadata ::
  "options_t \<Rightarrow> 'h property_fn \<Rightarrow> byte list \<Rightarrow> nat \<Rightarrow> bool \<Rightarrow> 'h mechanism_t
     \<Rightarrow> (error + unit) \<times> 'h mechanism_t" where
  "parse_metadata opts prop ptr len zap_flag m =
     (case parse_loop opts prop zap_flag ptr len m of
        (Inl e, m') \<Rightarrow> (Inl e, m')
      | (Inr bytes_left, m') \<Rightarrow>
          if bytes_left > 0 then (Inl EPROTO, m') else (Inr (), m'))"

text \<open>
  The same loop with a bound on the number of runs of its body: \<open>None\<close> when the bound
  is used up before the loop is left.
\<close>

fun parse_loop_bounded ::
  "nat \<Rightarrow> options_t \<Rightarrow> 'h property_fn \<Rightarrow> bool \<Rightarrow> byte list \<Rightarrow> nat \<Rightarrow> 'h mechanism_t
     \<Rightarrow> ((error + nat) \<times> 'h mechanism_t) option" where
  "parse_loop_bounded 0 opts prop zap_flag ptr bytes_left m = None"
| "parse_loop_bounded (Suc fuel) opts prop zap_flag ptr bytes_left m =
     (if bytes_left > 1 then
        (case loop_body opts prop zap_flag ptr bytes_left m of
           Break n m' \<Rightarrow> Some (Inr n, m')
         | Return e m' \<Rightarrow> Some (Inl e, m')
         | Continue ptr' bytes_left' m' \<Rightarrow>
             parse_loop_bounded fuel opts prop zap_flag ptr' bytes_left' m')
      else Some (Inr bytes_left, m))"

text \<open>
  The state a mechanism has after its constructor: both blobs and both dictionaries are
  empty. \<open>h\<close> is the initial state of the derived class.
\<close>

definition mechanism_init :: "'h \<Rightarrow> 'h mechanism_t" where
  "mechanism_init h =
     \<lparr>peer_id = [], user_id = [], zmtp_properties = Map.empty, zap_properties = Map.empty,
      derived = h\<rparr>"

section \<open>The wire format and the compatibility table, as the specification words them\<close>

text \<open>
  The definitions of this section are not translated from the source. They state the
  specification's wire format, its decoder and its compatibility table, for comparison
  with the functions above.

  A property on the wire: one byte with the length of the name, the name, four bytes with
  the length of the value (big-endian), the value.
\<close>

definition property_bytes :: "byte list \<Rightarrow> byte list \<Rightarrow> byte list" where
  "property_bytes name value =
     of_nat (length name) # name @ put_uint32 (of_nat (length value)) @ value"

fun property_list_bytes :: "(byte list \<times> byte list) list \<Rightarrow> byte list" where
  "property_list_bytes [] = []"
| "property_list_bytes ((name, value) # ps) = property_bytes name value @ property_list_bytes ps"

text \<open>A property that the layout can carry: its lengths fit their length fields.\<close>

definition wire_property :: "byte list \<times> byte list \<Rightarrow> bool" where
  "wire_property p = (length (fst p) \<le> 255 \<and> length (snd p) < 2 ^ 32)"

text \<open>A byte range that is a concatenation of complete well-formed properties.\<close>

definition is_property_list :: "byte list \<Rightarrow> bool" where
  "is_property_list buf = (\<exists>ps. list_all wire_property ps \<and> buf = property_list_bytes ps)"

text \<open>
  The decoder: the complete properties at the front of a byte range, in order, and the
  bytes left over behind them, which do not start with a complete property.
\<close>

function decode_properties :: "byte list \<Rightarrow> (byte list \<times> byte list) list \<times> byte list" where
  "decode_properties buf =
     (if length buf < 5 then ([], buf)
      else
        let n = unat (hd buf) in
        if length buf < 5 + n then ([], buf)
        else
          let vl = unat (get_uint32 (drop (1 + n) buf)) in
          if length buf < 5 + n + vl then ([], buf)
          else
            let (ps, tail) = decode_properties (drop (5 + n + vl) buf)
            in ((take n (drop 1 buf), take vl (drop (5 + n) buf)) # ps, tail))"
  by pat_completeness auto
termination
  by (relation "measure length") auto

declare decode_properties.simps [simp del]

text \<open>
  A left-over tail that stops exactly behind its name, or exactly behind its value length
  field.
\<close>

definition cut_at_field_end :: "byte list \<Rightarrow> bool" where
  "cut_at_field_end t =
     (2 \<le> length t \<and> (length t = 1 + unat (hd t) \<or> length t = 5 + unat (hd t)))"

text \<open>
  What the loop does with a sequence of decoded properties: each is dispatched and then
  recorded, in order, up to the first one that the dispatch rejects.
\<close>

fun process_properties ::
  "options_t \<Rightarrow> 'h property_fn \<Rightarrow> bool \<Rightarrow> (byte list \<times> byte list) list \<Rightarrow> 'h mechanism_t
     \<Rightarrow> (error + unit) \<times> 'h mechanism_t" where
  "process_properties opts prop zap_flag [] m = (Inr (), m)"
| "process_properties opts prop zap_flag ((name, value) # ps) m =
     (case dispatch opts prop name value (length value) m of
        (Inl e, m') \<Rightarrow> (Inl e, m')
      | (Inr u, m') \<Rightarrow>
          process_properties opts prop zap_flag ps
            (record_property zap_flag name value (length value) m'))"

text \<open>The counter with which the loop is left on a tail without a complete property.\<close>

definition residue :: "byte list \<Rightarrow> nat" where
  "residue t =
     (if length t \<le> 1 then length t
      else
        let n = unat (hd t) in
        if length t - 1 < n then length t - 1
        else if length t - 1 - n < 4 then length t - 1 - n
        else length t - 1 - n - 4)"

text \<open>The compatibility table of the specification: local role, accepted peer role names.\<close>

definition compatibility_table :: "(int \<times> string list) list" where
  "compatibility_table =
     [(ZMQ_PAIR, [''PAIR'']),
      (ZMQ_REQ, [''REP'', ''ROUTER'']),
      (ZMQ_REP, [''REQ'', ''DEALER'']),
      (ZMQ_DEALER, [''REP'', ''DEALER'', ''ROUTER'']),
      (ZMQ_ROUTER, [''REQ'', ''DEALER'', ''ROUTER'']),
      (ZMQ_PUSH, [''PULL'']),
      (ZMQ_PULL, [''PUSH'']),
      (ZMQ_PUB, [''SUB'', ''XSUB'']),
      (ZMQ_SUB, [''PUB'', ''XPUB'']),
      (ZMQ_XPUB, [''SUB'', ''XSUB'']),
      (ZMQ_XSUB, [''PUB'', ''XPUB'']),
      (ZMQ_SERVER, [''CLIENT'']),
      (ZMQ_CLIENT, [''SERVER'']),
      (ZMQ_RADIO, [''DISH'']),
      (ZMQ_DISH, [''RADIO'']),
      (ZMQ_GATHER, [''SCATTER'']),
      (ZMQ_SCATTER, [''GATHER'']),
      (ZMQ_DGRAM, [''DGRAM''])]"

definition is_compatible :: "int \<Rightarrow> byte list \<Rightarrow> bool" where
  "is_compatible local_role peer_role_name =
     (case map_of compatibility_table local_role of
        None \<Rightarrow> False
      | Some accepted \<Rightarrow> peer_role_name \<in> set (map cstr accepted))"

text \<open>
  The properties of a decoded sequence that the loop dispatches with success, and so
  records: those before the first one that the dispatch rejects.
\<close>

fun dispatched ::
  "options_t \<Rightarrow> 'h property_fn \<Rightarrow> bool \<Rightarrow> (byte list \<times> byte list) list \<Rightarrow> 'h mechanism_t
     \<Rightarrow> (byte list \<times> byte list) list" where
  "dispatched opts prop zap_flag [] m = []"
| "dispatched opts prop zap_flag ((name, value) # ps) m =
     (case dispatch opts prop name value (length value) m of
        (Inl e, m') \<Rightarrow> []
      | (Inr u, m') \<Rightarrow>
          (name, value) #
            dispatched opts prop zap_flag ps (record_property zap_flag name value (length value) m'))"

text \<open>Inserting a sequence of properties into a dictionary, in order.\<close>

definition dict_insert_all :: "(byte list \<times> byte list) list \<Rightarrow> dict_t \<Rightarrow> dict_t" where
  "dict_insert_all ps d = foldl (\<lambda>d (name, value). dict_insert name value d) d ps"

section \<open>Lemmas on the wire format\<close>

lemma get_put_uint32: "get_uint32 (put_uint32 v @ r) = v"
  unfolding get_uint32_def put_uint32_def
  apply (simp add: nth_append)
  apply (rule bit_word_eqI)
  subgoal for n
    by (cases "n < 8"; cases "n < 16"; cases "n < 24"; auto simp: bit_simps)
  done

lemma put_get_uint32_4: "put_uint32 (get_uint32 [b0, b1, b2, b3]) = [b0, b1, b2, b3]"
  unfolding get_uint32_def put_uint32_def
  apply simp
  apply (intro conjI; rule bit_word_eqI; auto simp: bit_simps dest: bit_imp_le_length)
  done

lemma get_uint32_append: "4 \<le> length b \<Longrightarrow> get_uint32 (b @ r) = get_uint32 b"
  by (auto simp: get_uint32_def nth_append)

lemma put_get_uint32: "4 \<le> length b \<Longrightarrow> put_uint32 (get_uint32 b) = take 4 b"
proof (cases b)
  case Nil
  assume "4 \<le> length b"
  with Nil show ?thesis by simp
next
  case c0: (Cons b0 r0)
  assume len: "4 \<le> length b"
  show ?thesis
  proof (cases r0)
    case Nil
    with c0 len show ?thesis by simp
  next
    case c1: (Cons b1 r1)
    show ?thesis
    proof (cases r1)
      case Nil
      with c0 c1 len show ?thesis by simp
    next
      case c2: (Cons b2 r2)
      show ?thesis
      proof (cases r2)
        case Nil
        with c0 c1 c2 len show ?thesis by simp
      next
        case c3: (Cons b3 r3)
        have "get_uint32 b = get_uint32 [b0, b1, b2, b3]"
          by (simp add: c0 c1 c2 c3 get_uint32_def)
        then show ?thesis
          by (simp add: put_get_uint32_4 c0 c1 c2 c3)
      qed
    qed
  qed
qed

lemma length_put_uint32 [simp]: "length (put_uint32 v) = 4"
  by (simp add: put_uint32_def)

lemma length_property_bytes [simp]:
  "length (property_bytes name value) = 5 + length name + length value"
  by (simp add: property_bytes_def)

lemma unat_byte_of_nat: "n \<le> 255 \<Longrightarrow> unat (of_nat n :: byte) = n"
  by (simp add: unat_of_nat)

lemma unat_u32_of_nat: "n < 2 ^ 32 \<Longrightarrow> unat (of_nat n :: 32 word) = n"
  by (simp add: unat_of_nat)

lemma dispatch_value_prefix:
  "dispatch opts prop name (value @ rest) (length value) m = dispatch opts prop name value (length value) m"
  by (simp add: dispatch_def set_peer_routing_id_def)

lemma record_property_value_prefix:
  "record_property zap_flag name (value @ rest) (length value) m = record_property zap_flag name value (length value) m"
  by (simp add: record_property_def)

lemma loop_body_property_bytes:
  assumes "length name \<le> 255" and "length value < 2 ^ 32"
  shows "loop_body opts prop zap_flag (property_bytes name value @ rest)
           (length (property_bytes name value) + k) m =
         (case dispatch opts prop name value (length value) m of
            (Inl e, m') \<Rightarrow> Return e m'
          | (Inr u, m') \<Rightarrow> Continue rest k (record_property zap_flag name value (length value) m'))"
  using assms
  by (simp add: loop_body_def Let_def property_bytes_def unat_byte_of_nat unat_u32_of_nat get_put_uint32
        dispatch_value_prefix record_property_value_prefix split: prod.splits sum.splits)


lemma parse_loop_property_list:
  "list_all wire_property ps \<Longrightarrow>
   parse_loop opts prop zap_flag (property_list_bytes ps @ rest)
     (length (property_list_bytes ps) + k) m =
   (case process_properties opts prop zap_flag ps m of
      (Inl e, m') \<Rightarrow> (Inl e, m')
    | (Inr u, m') \<Rightarrow> parse_loop opts prop zap_flag rest k m')"
proof (induction ps arbitrary: m)
  case Nil
  then show ?case by simp
next
  case (Cons p ps)
  obtain name "value" where p: "p = (name, value)" by (cases p)
  from Cons.prems p have b: "length name \<le> 255" "length value < 2 ^ 32"
    by (simp_all add: wire_property_def)
  from Cons.prems have ps: "list_all wire_property ps"
    by simp
  have body: "loop_body opts prop zap_flag (property_list_bytes (p # ps) @ rest)
                (length (property_list_bytes (p # ps)) + k) m =
              (case dispatch opts prop name value (length value) m of
                 (Inl e, m') \<Rightarrow> Return e m'
               | (Inr u, m') \<Rightarrow>
                   Continue (property_list_bytes ps @ rest) (length (property_list_bytes ps) + k)
                     (record_property zap_flag name value (length value) m'))"
    using loop_body_property_bytes [OF b, of opts "prop" zap_flag
        "property_list_bytes ps @ rest" "length (property_list_bytes ps) + k" m]
    by (simp add: p add.assoc)
  have gt: "1 < length (property_list_bytes (p # ps)) + k"
    by (simp add: p)
  show ?case
  proof (cases "dispatch opts prop name value (length value) m")
    case (Pair r m1)
    show ?thesis
    proof (cases r)
      case (Inl e)
      with Pair body gt show ?thesis
        by (subst parse_loop.simps) (simp add: p)
    next
      case (Inr u)
      with Pair body gt Cons.IH [OF ps] show ?thesis
        by (subst parse_loop.simps) (simp add: p)
    qed
  qed
qed

lemma front_property_Cons:
  assumes "4 + unat b + unat (get_uint32 (drop (unat b) r)) \<le> length r"
  shows "b # r = property_bytes (take (unat b) r)
                 (take (unat (get_uint32 (drop (unat b) r))) (drop (4 + unat b) r))
               @ drop (4 + unat b + unat (get_uint32 (drop (unat b) r))) r"
proof -
  define n where "n = unat b"
  define vl where "vl = unat (get_uint32 (drop n r))"
  from assms have len: "4 + n + vl \<le> length r" by (simp add: n_def vl_def)
  have l1: "length (take n r) = n" using len by simp
  have l2: "length (take vl (drop (4 + n) r)) = vl" using len by simp
  have p4: "put_uint32 (get_uint32 (drop n r)) = take 4 (drop n r)"
    using len by (intro put_get_uint32) simp
  have "r = take n r @ take 4 (drop n r) @ take vl (drop (4 + n) r) @ drop (4 + n + vl) r"
    by (metis add.commute append_take_drop_id drop_drop)
  moreover have "(of_nat n :: byte) = b" by (simp add: n_def)
  moreover have "(of_nat vl :: 32 word) = get_uint32 (drop n r)" by (simp add: vl_def)
  ultimately have "b # r = property_bytes (take n r) (take vl (drop (4 + n) r)) @ drop (4 + n + vl) r"
    unfolding property_bytes_def l1 l2
    by (simp add: p4)
  then show ?thesis
    unfolding vl_def n_def .
qed

section \<open>The loop and the decoder\<close>

lemma decode_properties_sound:
  "decode_properties buf = (ps, tail) \<Longrightarrow>
     buf = property_list_bytes ps @ tail \<and> list_all wire_property ps
       \<and> fst (decode_properties tail) = []"
proof (induction buf arbitrary: ps tail rule: decode_properties.induct)
  case (1 buf)
  define n where "n = unat (hd buf)"
  define vl where "vl = unat (get_uint32 (drop (1 + n) buf))"
  show ?case
  proof (cases "length buf < 5 \<or> length buf < 5 + n \<or> length buf < 5 + n + vl")
    case True
    then have "decode_properties buf = ([], buf)"
      by (subst decode_properties.simps) (auto simp: Let_def n_def vl_def)
    with "1.prems" show ?thesis by simp
  next
    case False
    then have len: "5 + n + vl \<le> length buf" by simp
    then obtain b r where buf: "buf = b # r" by (cases buf) auto
    obtain ps' tail' where rec: "decode_properties (drop (5 + n + vl) buf) = (ps', tail')"
      by (cases "decode_properties (drop (5 + n + vl) buf)")
    from False rec
    have "decode_properties buf = ((take n (drop 1 buf), take vl (drop (5 + n) buf)) # ps', tail')"
      unfolding vl_def n_def
      by (subst decode_properties.simps) (simp add: Let_def)
    with "1.prems"
    have ps: "ps = (take n (drop 1 buf), take vl (drop (5 + n) buf)) # ps'" and tail: "tail = tail'"
      by simp_all
    from False have c: "\<not> length buf < 5" "\<not> length buf < 5 + n" "\<not> length buf < 5 + n + vl"
      by simp_all
    have IH: "drop (5 + n + vl) buf = property_list_bytes ps' @ tail' \<and> list_all wire_property ps'
                \<and> fst (decode_properties tail') = []"
      using "1.IH" [OF c(1) n_def c(2) vl_def c(3) rec] .
    have "4 + unat b + unat (get_uint32 (drop (unat b) r)) \<le> length r"
      using len by (simp add: buf n_def vl_def)
    from front_property_Cons [OF this, symmetric]
    have front: "buf = property_bytes (take n (drop 1 buf)) (take vl (drop (5 + n) buf))
                   @ drop (5 + n + vl) buf"
      by (simp add: buf n_def vl_def drop_Cons' add.assoc)
    have "n \<le> 255"
      using unsigned_less [of "hd buf", where ?'a = nat] by (simp add: n_def)
    moreover have "vl < 2 ^ 32"
      using unsigned_less [of "get_uint32 (drop (1 + n) buf)", where ?'a = nat]
      by (simp add: vl_def)
    ultimately have w: "wire_property (take n (drop 1 buf), take vl (drop (5 + n) buf))"
      using len by (simp add: wire_property_def)
    from IH front w show ?thesis
      by (simp add: ps tail) 
  qed
qed


lemma decode_properties_property_bytes:
  assumes "length name \<le> 255" and "length value < 2 ^ 32"
  shows "decode_properties (property_bytes name value @ rest) =
           ((name, value) # fst (decode_properties rest), snd (decode_properties rest))"
proof -
  have h: "hd (property_bytes name value @ rest) = of_nat (length name)"
    by (simp add: property_bytes_def)
  have g: "get_uint32 (drop (1 + length name) (property_bytes name value @ rest)) =
             of_nat (length value)"
    by (simp add: property_bytes_def get_put_uint32)
  have d: "drop (5 + length name + length value) (property_bytes name value @ rest) = rest"
    by simp
  have t1: "take (length name) (drop 1 (property_bytes name value @ rest)) = name"
    by (simp add: property_bytes_def)
  have t2: "take (length value) (drop (5 + length name) (property_bytes name value @ rest)) = value"
    by (simp add: property_bytes_def drop_Cons')
  show ?thesis
    apply (subst decode_properties.simps)
    apply (simp only: h g Let_def unat_byte_of_nat [OF assms(1)] unat_u32_of_nat [OF assms(2)] d t1 t2)
    apply (simp add: split_beta)
    done
qed

lemma decode_properties_property_list_bytes:
  "list_all wire_property ps \<Longrightarrow>
     decode_properties (property_list_bytes ps @ rest) =
       (ps @ fst (decode_properties rest), snd (decode_properties rest))"
proof (induction ps)
  case Nil
  then show ?case by simp
next
  case (Cons p ps)
  obtain name "value" where p: "p = (name, value)" by (cases p)
  from Cons.prems p have b: "length name \<le> 255" "length value < 2 ^ 32"
    by (simp_all add: wire_property_def)
  from Cons.prems have ps: "list_all wire_property ps"
    by simp
  show ?case
    using decode_properties_property_bytes [OF b, of "property_list_bytes ps @ rest"] Cons.IH [OF ps]
    by (simp add: p)
qed

lemma decode_properties_Nil: "decode_properties [] = ([], [])"
  by (subst decode_properties.simps) simp

lemma is_property_list_decode:
  "is_property_list buf \<longleftrightarrow> snd (decode_properties buf) = []"
proof
  assume "is_property_list buf"
  then obtain ps where "list_all wire_property ps" "buf = property_list_bytes ps"
    by (auto simp: is_property_list_def)
  then show "snd (decode_properties buf) = []"
    using decode_properties_property_list_bytes [of ps "[]"]
    by (simp add: decode_properties_Nil)
next
  assume a: "snd (decode_properties buf) = []"
  obtain ps tail where d: "decode_properties buf = (ps, tail)"
    by (cases "decode_properties buf")
  from decode_properties_sound [OF d] a d show "is_property_list buf"
    by (auto simp: is_property_list_def)
qed

lemma parse_loop_tail:
  assumes "fst (decode_properties t) = []"
  shows "parse_loop opts prop zap_flag (t @ beyond) (length t) m = (Inr (residue t), m)"
proof (cases "length t \<le> 1")
  case True
  then show ?thesis
    by (subst parse_loop.simps) (simp add: residue_def)
next
  case False
  then obtain b r where t: "t = b # r" by (cases t) auto
  define n where "n = unat b"
  have inc: "length t < 5 \<or> length t < 5 + n \<or>
             length t < 5 + n + unat (get_uint32 (drop (1 + n) t))"
  proof (rule ccontr)
    assume "\<not> ?thesis"
    then have "fst (decode_properties t) \<noteq> []"
      by (subst decode_properties.simps) (simp add: Let_def n_def t split_beta)
    with assms show False by simp
  qed
  have g: "4 + n \<le> length r \<Longrightarrow> get_uint32 (drop n r @ beyond) = get_uint32 (drop n r)"
    by (intro get_uint32_append) simp
  have "loop_body opts prop zap_flag (t @ beyond) (length t) m = Break (residue t) m"
    using inc False g
    by (auto simp: loop_body_def Let_def residue_def t n_def[symmetric])
  with False show ?thesis
    by (subst parse_loop.simps) simp
qed

lemma parse_loop_decode:
  assumes "len \<le> length ptr"
  shows "parse_loop opts prop zap_flag ptr len m =
           (case process_properties opts prop zap_flag (fst (decode_properties (take len ptr))) m of
              (Inl e, m') \<Rightarrow> (Inl e, m')
            | (Inr u, m') \<Rightarrow> (Inr (residue (snd (decode_properties (take len ptr)))), m'))"
proof -
  obtain ps tail where d: "decode_properties (take len ptr) = (ps, tail)"
    by (cases "decode_properties (take len ptr)")
  from decode_properties_sound [OF d]
  have buf: "take len ptr = property_list_bytes ps @ tail" and w: "list_all wire_property ps"
    and inc: "fst (decode_properties tail) = []"
    by simp_all
  have "ptr = take len ptr @ drop len ptr" by simp
  with buf have ptr: "ptr = property_list_bytes ps @ (tail @ drop len ptr)" by simp
  from buf assms have len: "len = length (property_list_bytes ps) + length tail"
    by (metis length_append length_take min.absorb2)
  have "parse_loop opts prop zap_flag ptr len m =
          parse_loop opts prop zap_flag (property_list_bytes ps @ (tail @ drop len ptr))
            (length (property_list_bytes ps) + length tail) m"
    using ptr len by simp
  also have "\<dots> = (case process_properties opts prop zap_flag ps m of
                      (Inl e, m') \<Rightarrow> (Inl e, m')
                    | (Inr u, m') \<Rightarrow> (Inr (residue tail), m'))"
    by (simp add: parse_loop_property_list [OF w] parse_loop_tail [OF inc]
          split: prod.splits sum.splits)
  finally show ?thesis unfolding d fst_conv snd_conv .
qed

lemma residue_zero: "residue t = 0 \<longleftrightarrow> t = [] \<or> cut_at_field_end t"
  by (auto simp: residue_def cut_at_field_end_def Let_def)

section \<open>Termination of the scan\<close>

lemma loop_body_Continue_less:
  "loop_body opts prop zap_flag ptr bytes_left m = Continue ptr' bytes_left' m'
     \<Longrightarrow> bytes_left' + 5 \<le> bytes_left"
  by (auto simp: loop_body_def Let_def split: if_splits prod.splits sum.splits)

lemma parse_loop_bounded_enough:
  "bytes_left div 5 < fuel \<Longrightarrow>
     parse_loop_bounded fuel opts prop zap_flag ptr bytes_left m =
       Some (parse_loop opts prop zap_flag ptr bytes_left m)"
proof (induction opts "prop" zap_flag ptr bytes_left m arbitrary: fuel rule: parse_loop.induct)
  case (1 opts "prop" zap_flag ptr bytes_left m)
  from "1.prems" obtain f where fuel: "fuel = Suc f" by (cases fuel) auto
  show ?case
  proof (cases "1 < bytes_left")
    case False
    then show ?thesis by (simp add: fuel parse_loop.simps)
  next
    case True
    show ?thesis
    proof (cases "loop_body opts prop zap_flag ptr bytes_left m")
      case (Break n m')
      with True show ?thesis by (simp add: fuel parse_loop.simps)
    next
      case (Return e m')
      with True show ?thesis by (simp add: fuel parse_loop.simps)
    next
      case (Continue ptr' bytes_left' m')
      from loop_body_Continue_less [OF Continue] "1.prems" fuel
      have "bytes_left' div 5 < f" by linarith
      from "1.IH" [OF True Continue this] True Continue show ?thesis
        by (simp add: fuel parse_loop.simps)
    qed
  qed
qed

text \<open>
  C10: \<^verbatim>\<open>parse_metadata\<close> terminates for every buffer and length. A run of the loop
  body that neither breaks nor returns leaves the counter of remaining bytes smaller by
  at least 5, and the loop is left after at most \<open>len div 5 + 1\<close> runs of its body,
  with the result of \<open>parse_loop\<close>.
\<close>

theorem parse_metadata_terminates:
  "(loop_body opts prop zap_flag ptr bytes_left m = Continue ptr' bytes_left' m'
      \<longrightarrow> bytes_left' + 5 \<le> bytes_left)
   \<and> parse_loop_bounded (Suc (len div 5)) opts prop zap_flag ptr len m =
       Some (parse_loop opts prop zap_flag ptr len m)"
proof -
  have "len div 5 < Suc (len div 5)" by simp
  from parse_loop_bounded_enough [OF this] loop_body_Continue_less
  show ?thesis by blast
qed

theorem parse_metadata_terminates_witness:
  "loop_body \<lparr>type = ZMQ_REQ, routing_id_size = 0, routing_id = [], recv_routing_id = False\<rparr>
      property False [0, 0, 0, 0, 0] 5 (mechanism_init ()) =
     Continue [] 0 (record_property False [] [] 0 (mechanism_init ()))
   \<and> (0::nat) + 5 \<le> 5
   \<and> parse_loop_bounded (Suc (5 div 5))
       \<lparr>type = ZMQ_REQ, routing_id_size = 0, routing_id = [], recv_routing_id = False\<rparr>
       property False [0, 0, 0, 0, 0] 5 (mechanism_init ()) =
     Some (parse_loop \<lparr>type = ZMQ_REQ, routing_id_size = 0, routing_id = [], recv_routing_id = False\<rparr>
       property False [0, 0, 0, 0, 0] 5 (mechanism_init ()))"
proof -
  have body: "loop_body \<lparr>type = ZMQ_REQ, routing_id_size = 0, routing_id = [], recv_routing_id = False\<rparr>
      property False [0, 0, 0, 0, 0] 5 (mechanism_init ()) =
     Continue [] 0 (record_property False [] [] 0 (mechanism_init ()))"
    by (simp add: loop_body_def get_uint32_def dispatch_def property_def
          ZMTP_PROPERTY_IDENTITY_def ZMTP_PROPERTY_SOCKET_TYPE_def cstr_def mechanism_init_def)
  from parse_metadata_terminates
    [of "\<lparr>type = ZMQ_REQ, routing_id_size = 0, routing_id = [], recv_routing_id = False\<rparr>"
        property False "[0, 0, 0, 0, 0]" 5 "mechanism_init ()" "[]" 0
        "record_property False [] [] 0 (mechanism_init ())" 5] body
  show ?thesis by blast
qed

section \<open>The compatibility check\<close>

text \<open>
  C2: \<^verbatim>\<open>check_socket_type\<close> is the compatibility table of the specification: it
  agrees with the table for every local role and every peer role name, it is false for
  every peer role name when the local role has no row, and on the examples (REQ, "REP"),
  (PAIR, "PAIR"), (DGRAM, "DGRAM") it is true, on (REQ, "PUB") and on STREAM false.
\<close>

theorem check_socket_type_table:
  "check_socket_type opts peer = is_compatible (type opts) peer
   \<and> (map_of compatibility_table (type opts) = None \<longrightarrow> \<not> check_socket_type opts peer)
   \<and> check_socket_type (opts\<lparr>type := ZMQ_REQ\<rparr>) (cstr ''REP'')
   \<and> check_socket_type (opts\<lparr>type := ZMQ_PAIR\<rparr>) (cstr ''PAIR'')
   \<and> check_socket_type (opts\<lparr>type := ZMQ_DGRAM\<rparr>) (cstr ''DGRAM'')
   \<and> \<not> check_socket_type (opts\<lparr>type := ZMQ_REQ\<rparr>) (cstr ''PUB'')
   \<and> \<not> check_socket_type (opts\<lparr>type := ZMQ_STREAM\<rparr>) peer"
proof -
  have 1: "check_socket_type opts peer = is_compatible (type opts) peer"
    by (simp add: check_socket_type_def is_compatible_def compatibility_table_def)
  have 2: "map_of compatibility_table (type opts) = None \<longrightarrow> \<not> check_socket_type opts peer"
    by (simp add: 1 is_compatible_def)
  have 3: "check_socket_type (opts\<lparr>type := ZMQ_REQ\<rparr>) (cstr ''REP'')"
    "check_socket_type (opts\<lparr>type := ZMQ_PAIR\<rparr>) (cstr ''PAIR'')"
    "check_socket_type (opts\<lparr>type := ZMQ_DGRAM\<rparr>) (cstr ''DGRAM'')"
    "\<not> check_socket_type (opts\<lparr>type := ZMQ_REQ\<rparr>) (cstr ''PUB'')"
    "\<not> check_socket_type (opts\<lparr>type := ZMQ_STREAM\<rparr>) peer"
    by (simp_all add: check_socket_type_def cstr_def)
  from 1 2 3 show ?thesis by blast
qed


theorem check_socket_type_table_witness:
  "map_of compatibility_table ZMQ_STREAM = None
   \<and> \<not> check_socket_type
         \<lparr>type = ZMQ_STREAM, routing_id_size = 0, routing_id = [], recv_routing_id = False\<rparr>
         (cstr ''STREAM'')"
  using check_socket_type_table
    [of "\<lparr>type = ZMQ_STREAM, routing_id_size = 0, routing_id = [], recv_routing_id = False\<rparr>"
        "cstr ''STREAM''"]
  by (simp add: compatibility_table_def is_compatible_def)

section \<open>The effect of a parse on the mechanism\<close>

lemma parse_metadata_decode:
  assumes "len \<le> length ptr"
  shows "parse_metadata opts prop ptr len zap_flag m =
           (case process_properties opts prop zap_flag (fst (decode_properties (take len ptr))) m of
              (Inl e, m') \<Rightarrow> (Inl e, m')
            | (Inr u, m') \<Rightarrow>
                if residue (snd (decode_properties (take len ptr))) > 0 then (Inl EPROTO, m')
                else (Inr (), m'))"
  unfolding parse_metadata_def parse_loop_decode [OF assms]
  by (simp split: prod.splits sum.splits)

lemma parse_metadata_property_list:
  assumes "list_all wire_property ps"
  shows "parse_metadata opts prop (property_list_bytes ps @ rest)
           (length (property_list_bytes ps) + k) zap_flag m =
         (case process_properties opts prop zap_flag ps m of
            (Inl e, m') \<Rightarrow> (Inl e, m')
          | (Inr u, m') \<Rightarrow> parse_metadata opts prop rest k zap_flag m')"
  unfolding parse_metadata_def parse_loop_property_list [OF assms]
  by (simp split: prod.splits sum.splits)

lemma parse_metadata_short:
  "len \<le> 1 \<Longrightarrow> parse_metadata opts prop ptr len zap_flag m =
     (if len > 0 then (Inl EPROTO, m) else (Inr (), m))"
  by (simp add: parse_metadata_def parse_loop.simps)

lemma dispatch_dicts:
  "dispatch opts prop name value value_length m = (r, m') \<Longrightarrow>
     zap_properties m' = zap_properties m \<and> zmtp_properties m' = zmtp_properties m"
  by (auto simp: dispatch_def set_peer_routing_id_def Let_def split: if_splits prod.splits)

lemma loop_body_other_dict:
  "loop_body opts prop zap_flag ptr bytes_left m = r \<Longrightarrow>
     (case r of
        Break n m' \<Rightarrow> m' = m
      | Return e m' \<Rightarrow>
          zap_properties m' = zap_properties m \<and> zmtp_properties m' = zmtp_properties m
      | Continue ptr' bytes_left' m' \<Rightarrow>
          (if zap_flag then zmtp_properties m' = zmtp_properties m
           else zap_properties m' = zap_properties m))"
  by (auto simp: loop_body_def Let_def record_property_def
        split: if_splits prod.splits sum.splits dest: dispatch_dicts)

lemma parse_loop_other_dict:
  "(if zap_flag then zmtp_properties (snd (parse_loop opts prop zap_flag ptr bytes_left m))
                       = zmtp_properties m
    else zap_properties (snd (parse_loop opts prop zap_flag ptr bytes_left m)) = zap_properties m)"
proof (induction opts "prop" zap_flag ptr bytes_left m rule: parse_loop.induct)
  case (1 opts "prop" zap_flag ptr bytes_left m)
  show ?case
  proof (cases "1 < bytes_left")
    case False
    then show ?thesis by (simp add: parse_loop.simps)
  next
    case True
    show ?thesis
    proof (cases "loop_body opts prop zap_flag ptr bytes_left m")
      case (Break n m')
      with True loop_body_other_dict [OF Break] show ?thesis
        by (cases zap_flag) (simp_all add: parse_loop.simps)
    next
      case (Return e m')
      with True loop_body_other_dict [OF Return] show ?thesis
        by (cases zap_flag) (simp_all add: parse_loop.simps)
    next
      case (Continue ptr' bytes_left' m')
      with True loop_body_other_dict [OF Continue] "1.IH" [OF True Continue] show ?thesis
        by (cases zap_flag) (simp_all add: parse_loop.simps)
    qed
  qed
qed

lemma parse_metadata_other_dict:
  "zmtp_properties (snd (parse_metadata opts prop ptr len True m)) = zmtp_properties m"
  "zap_properties (snd (parse_metadata opts prop ptr len False m)) = zap_properties m"
  using parse_loop_other_dict [of True opts "prop" ptr len m]
        parse_loop_other_dict [of False opts "prop" ptr len m]
  by (auto simp: parse_metadata_def split: prod.splits sum.splits)

lemma process_properties_selected_dict:
  "(if zap_flag then zap_properties (snd (process_properties opts prop zap_flag ps m))
    else zmtp_properties (snd (process_properties opts prop zap_flag ps m))) =
   dict_insert_all (dispatched opts prop zap_flag ps m)
     (if zap_flag then zap_properties m else zmtp_properties m)"
proof (induction ps arbitrary: m)
  case Nil
  then show ?case by (simp add: dict_insert_all_def)
next
  case (Cons p ps)
  obtain name "value" where p: "p = (name, value)" by (cases p)
  obtain r m1 where d: "dispatch opts prop name value (length value) m = (r, m1)"
    by (cases "dispatch opts prop name value (length value) m")
  show ?case
  proof (cases r)
    case (Inl e)
    with d dispatch_dicts [OF d] show ?thesis
      by (cases zap_flag) (simp_all add: p dict_insert_all_def)
  next
    case (Inr u)
    with d dispatch_dicts [OF d]
      Cons.IH [of "record_property zap_flag name value (length value) m1"]
    show ?thesis
      by (cases zap_flag) (simp_all add: p dict_insert_all_def record_property_def)
  qed
qed

lemma parse_metadata_state:
  assumes "len \<le> length ptr"
  shows "snd (parse_metadata opts prop ptr len zap_flag m) =
         snd (process_properties opts prop zap_flag (fst (decode_properties (take len ptr))) m)"
  unfolding parse_metadata_decode [OF assms]
  by (simp split: prod.splits sum.splits)

lemma dom_dict_insert_all: "dom (dict_insert_all ps d) = fst ` set ps \<union> dom d"
  unfolding dict_insert_all_def
  by (induction ps arbitrary: d) (auto simp: dict_insert_def)

lemma dict_insert_all_map_add: "dict_insert_all ps d = d ++ map_of (rev ps)"
  unfolding dict_insert_all_def
proof (induction ps arbitrary: d)
  case Nil
  then show ?case by simp
next
  case (Cons p ps)
  obtain k v where p: "p = (k, v)" by (cases p)
  have "dict_insert k v d ++ map_of (rev ps) = d ++ map_of (rev (p # ps))"
    by (simp add: p dict_insert_def map_of_append)
  with Cons.IH [of "dict_insert k v d"] show ?case
    by (simp only: p foldl.simps prod.case)
qed

lemma dict_insert_all_last:
  assumes "name \<notin> fst ` set ds2"
  shows "dict_insert_all (ds1 @ (name, value) # ds2) d name = Some value"
proof -
  from assms have "map_of (rev ds2) name = None"
    by (simp add: map_of_eq_None_iff)
  then show ?thesis
    by (simp add: dict_insert_all_map_add map_of_append map_add_def)
qed


lemma memcpy_append:
  "length pre = off \<Longrightarrow> memcpy (pre @ post) off src n = pre @ take n src @ drop n post"
  by (simp add: memcpy_def)

lemma add_property_ok:
  assumes name: "length name \<le> 255" and vl: "value_len \<le> 0x7FFFFFFF"
      and val: "value_len \<le> length value"
      and cap: "5 + length name + value_len \<le> ptr_capacity" and mem: "ptr_capacity \<le> length ptr"
  shows "add_property ptr ptr_capacity name value value_len =
           Inr (property_bytes name (take value_len value) @ drop (5 + length name + value_len) ptr,
                5 + length name + value_len)"
proof -
  have total: "property_len (length name) value_len = 5 + length name + value_len"
    using name vl by (simp add: property_len_def size_t_wrap_def)
  from cap mem obtain p0 r where ptr: "ptr = p0 # r" by (cases ptr) auto
  have p1: "ptr[0 := of_nat (length name)] = [of_nat (length name)] @ r"
    by (simp add: ptr)
  have p2: "memcpy ([of_nat (length name)] @ r) 1 name (length name) =
              ([of_nat (length name)] @ name) @ drop (length name) r"
    by (subst memcpy_append) simp_all
  have p3: "memcpy (([of_nat (length name)] @ name) @ drop (length name) r) (1 + length name)
              (put_uint32 (of_nat value_len)) 4 =
              ([of_nat (length name)] @ name @ put_uint32 (of_nat value_len))
                @ drop (4 + length name) r"
    by (subst memcpy_append) (simp_all add: add.commute)
  have p4: "memcpy (([of_nat (length name)] @ name @ put_uint32 (of_nat value_len))
                      @ drop (4 + length name) r)
              (1 + length name + 4) value value_len =
              ([of_nat (length name)] @ name @ put_uint32 (of_nat value_len)) @ take value_len value
                @ drop (4 + length name + value_len) r"
    by (subst memcpy_append) (simp_all add: add.commute)
  have w: "memcpy (memcpy (memcpy (ptr[0 := of_nat (length name)]) 1 name (length name))
                     (1 + length name) (put_uint32 (of_nat value_len)) 4)
             (1 + length name + 4) value value_len =
           property_bytes name (take value_len value) @ drop (5 + length name + value_len) ptr"
    unfolding p1 p2 p3 p4 using val
    by (simp add: property_bytes_def ptr drop_Cons' add.assoc)
  from cap have cap': "(5 + length name + value_len \<le> ptr_capacity) = True" by simp
  from name have name': "(length name \<le> 255) = True" by simp
  from vl have vl': "(value_len \<le> 0x7FFFFFFF) = True" by simp
  show ?thesis
    unfolding add_property_def name_len_def strlen_def Let_def
    by (simp only: name' vl' cap' total w if_False not_True_eq_False sum.case)
qed

lemma add_property_rejects:
  "\<not> (length name \<le> 255 \<and> value_len \<le> 0x7FFFFFFF) \<Longrightarrow>
     add_property ptr ptr_capacity name value value_len = Inl AssertFailed"
  by (auto simp: add_property_def name_len_def strlen_def Let_def)

lemma socket_type_name_not_identity: "ZMTP_PROPERTY_SOCKET_TYPE \<noteq> ZMTP_PROPERTY_IDENTITY"
  by (simp add: ZMTP_PROPERTY_SOCKET_TYPE_def ZMTP_PROPERTY_IDENTITY_def cstr_def)

lemma parse_metadata_property_bytes:
  assumes "length name \<le> 255" and "length value < 2 ^ 32"
  shows "parse_metadata opts prop (property_bytes name value @ rest)
           (length (property_bytes name value) + k) zap_flag m =
         (case dispatch opts prop name value (length value) m of
            (Inl e, m') \<Rightarrow> (Inl e, m')
          | (Inr u, m') \<Rightarrow>
              parse_metadata opts prop rest k zap_flag
                (record_property zap_flag name value (length value) m'))"
  using parse_metadata_property_list [of "[(name, value)]" opts "prop" rest k zap_flag m] assms
  by (simp add: wire_property_def split: prod.splits sum.splits)

section \<open>The two dictionaries\<close>

text \<open>
  C8: one call of \<^verbatim>\<open>parse_metadata\<close> with the flag set leaves the wire-facing
  dictionary as it was and inserts every property that it dispatched with success, whatever
  its name, into the authentication-facing dictionary: that dictionary is the old one
  with the dispatched properties inserted in order, and it maps the name of a dispatched
  property to the value of that property, unless a property of the same name was
  dispatched after it (then to the value of the last such). With the flag unset the two
  dictionaries change places. The first two statements hold for every buffer and length.
\<close>
theorem parse_metadata_routes_by_flag:
  "zmtp_properties (snd (parse_metadata opts prop ptr len True m)) = zmtp_properties m
   \<and> zap_properties (snd (parse_metadata opts prop ptr len False m)) = zap_properties m
   \<and> (len \<le> length ptr \<longrightarrow>
        zap_properties (snd (parse_metadata opts prop ptr len True m)) =
          dict_insert_all (dispatched opts prop True (fst (decode_properties (take len ptr))) m)
            (zap_properties m)
      \<and> zmtp_properties (snd (parse_metadata opts prop ptr len False m)) =
          dict_insert_all (dispatched opts prop False (fst (decode_properties (take len ptr))) m)
            (zmtp_properties m)
      \<and> fst ` set (dispatched opts prop True (fst (decode_properties (take len ptr))) m)
          \<subseteq> dom (zap_properties (snd (parse_metadata opts prop ptr len True m)))
      \<and> fst ` set (dispatched opts prop False (fst (decode_properties (take len ptr))) m)
          \<subseteq> dom (zmtp_properties (snd (parse_metadata opts prop ptr len False m)))
      \<and> (dispatched opts prop True (fst (decode_properties (take len ptr))) m =
            ds1 @ (name, value) # ds2 \<and> name \<notin> fst ` set ds2 \<longrightarrow>
          zap_properties (snd (parse_metadata opts prop ptr len True m)) name = Some value)
      \<and> (dispatched opts prop False (fst (decode_properties (take len ptr))) m =
            ds1 @ (name, value) # ds2 \<and> name \<notin> fst ` set ds2 \<longrightarrow>
          zmtp_properties (snd (parse_metadata opts prop ptr len False m)) name = Some value))"
proof -
  have sel: "len \<le> length ptr \<Longrightarrow>
      zap_properties (snd (parse_metadata opts prop ptr len True m)) =
          dict_insert_all (dispatched opts prop True (fst (decode_properties (take len ptr))) m)
            (zap_properties m)
      \<and> zmtp_properties (snd (parse_metadata opts prop ptr len False m)) =
          dict_insert_all (dispatched opts prop False (fst (decode_properties (take len ptr))) m)
            (zmtp_properties m)"
    using process_properties_selected_dict
            [of True opts "prop" "fst (decode_properties (take len ptr))" m]
          process_properties_selected_dict
            [of False opts "prop" "fst (decode_properties (take len ptr))" m]
    by (simp add: parse_metadata_state)
  have last: "len \<le> length ptr \<Longrightarrow>
      dispatched opts prop True (fst (decode_properties (take len ptr))) m =
            ds1 @ (name, value) # ds2 \<and> name \<notin> fst ` set ds2 \<Longrightarrow>
      zap_properties (snd (parse_metadata opts prop ptr len True m)) name = Some value"
    "len \<le> length ptr \<Longrightarrow>
      dispatched opts prop False (fst (decode_properties (take len ptr))) m =
            ds1 @ (name, value) # ds2 \<and> name \<notin> fst ` set ds2 \<Longrightarrow>
      zmtp_properties (snd (parse_metadata opts prop ptr len False m)) name = Some value"
    using sel by (simp_all add: dict_insert_all_last)
  have frame: "zmtp_properties (snd (parse_metadata opts prop ptr len True m)) = zmtp_properties m"
    "zap_properties (snd (parse_metadata opts prop ptr len False m)) = zap_properties m"
    by (rule parse_metadata_other_dict)+
  have doms: "len \<le> length ptr \<Longrightarrow>
      fst ` set (dispatched opts prop True (fst (decode_properties (take len ptr))) m)
          \<subseteq> dom (zap_properties (snd (parse_metadata opts prop ptr len True m)))
      \<and> fst ` set (dispatched opts prop False (fst (decode_properties (take len ptr))) m)
          \<subseteq> dom (zmtp_properties (snd (parse_metadata opts prop ptr len False m)))"
    using sel by (simp add: dom_dict_insert_all)
  from frame sel doms last show ?thesis by blast
qed

theorem parse_metadata_routes_by_flag_witness:
  "length (property_bytes (cstr ''Socket-Type'') (cstr ''REP'') @ property_bytes (cstr ''Identity'') [1, 2])
     \<le> length (property_bytes (cstr ''Socket-Type'') (cstr ''REP'') @ property_bytes (cstr ''Identity'') [1, 2])
   \<and> dispatched \<lparr>type = ZMQ_REQ, routing_id_size = 0, routing_id = [], recv_routing_id = True\<rparr>
        property True
        (fst (decode_properties (property_bytes (cstr ''Socket-Type'') (cstr ''REP'')
                                   @ property_bytes (cstr ''Identity'') [1, 2])))
        (mechanism_init ()) =
       [] @ (cstr ''Socket-Type'', cstr ''REP'') # [(cstr ''Identity'', [1, 2])]
   \<and> cstr ''Socket-Type'' \<notin> fst ` set [(cstr ''Identity'', [1, 2 :: byte])]
   \<and> zap_properties (snd (parse_metadata
         \<lparr>type = ZMQ_REQ, routing_id_size = 0, routing_id = [], recv_routing_id = True\<rparr> property
         (property_bytes (cstr ''Socket-Type'') (cstr ''REP'') @ property_bytes (cstr ''Identity'') [1, 2])
         (length (property_bytes (cstr ''Socket-Type'') (cstr ''REP'')
                    @ property_bytes (cstr ''Identity'') [1, 2]))
         True (mechanism_init ()))) (cstr ''Socket-Type'') = Some (cstr ''REP'')
   \<and> zap_properties (snd (parse_metadata
         \<lparr>type = ZMQ_REQ, routing_id_size = 0, routing_id = [], recv_routing_id = True\<rparr> property
         (property_bytes (cstr ''Socket-Type'') (cstr ''REP'') @ property_bytes (cstr ''Identity'') [1, 2])
         (length (property_bytes (cstr ''Socket-Type'') (cstr ''REP'')
                    @ property_bytes (cstr ''Identity'') [1, 2]))
         True (mechanism_init ()))) =
       [cstr ''Socket-Type'' \<mapsto> cstr ''REP'', cstr ''Identity'' \<mapsto> [1, 2]]
   \<and> zmtp_properties (snd (parse_metadata
         \<lparr>type = ZMQ_REQ, routing_id_size = 0, routing_id = [], recv_routing_id = True\<rparr> property
         (property_bytes (cstr ''Socket-Type'') (cstr ''REP'') @ property_bytes (cstr ''Identity'') [1, 2])
         (length (property_bytes (cstr ''Socket-Type'') (cstr ''REP'')
                    @ property_bytes (cstr ''Identity'') [1, 2]))
         True (mechanism_init ()))) = Map.empty"
proof -
  let ?opts = "\<lparr>type = ZMQ_REQ, routing_id_size = 0, routing_id = [], recv_routing_id = True\<rparr>"
  define buf where "buf = property_bytes (cstr ''Socket-Type'') (cstr ''REP'')
                            @ property_bytes (cstr ''Identity'') [1, 2]"
  define ps where "ps = [(cstr ''Socket-Type'', cstr ''REP''), (cstr ''Identity'', [1, 2 :: byte])]"
  have buf: "buf = property_list_bytes ps @ []"
    by (simp add: buf_def ps_def)
  have "list_all wire_property ps"
    by (simp add: ps_def wire_property_def cstr_def)
  from decode_properties_property_list_bytes [OF this, of "[]"]
  have dec: "fst (decode_properties buf) = ps"
    by (simp add: buf decode_properties_Nil)
  have tk: "take (length buf) buf = buf"
    by simp
  have init: "zap_properties (mechanism_init () :: unit mechanism_t) = Map.empty"
    "zmtp_properties (mechanism_init () :: unit mechanism_t) = Map.empty"
    by (simp_all add: mechanism_init_def)
  have disp: "dispatched ?opts property True ps (mechanism_init ()) = ps"
    by (simp add: ps_def dispatch_def check_socket_type_def ZMTP_PROPERTY_SOCKET_TYPE_def
          ZMTP_PROPERTY_IDENTITY_def cstr_def)
  have split: "ps = [] @ (cstr ''Socket-Type'', cstr ''REP'') # [(cstr ''Identity'', [1, 2])]"
    by (simp add: ps_def)
  have notin: "cstr ''Socket-Type'' \<notin> fst ` set [(cstr ''Identity'', [1, 2 :: byte])]"
    by (simp add: cstr_def)
  have ins: "dict_insert_all ps Map.empty =
               [cstr ''Socket-Type'' \<mapsto> cstr ''REP'', cstr ''Identity'' \<mapsto> [1, 2]]"
    by (simp add: ps_def dict_insert_all_def dict_insert_def)
  have l: "length buf \<le> length buf"
    by simp
  note r = parse_metadata_routes_by_flag
    [of ?opts property buf "length buf" "mechanism_init ()" "[]" "cstr ''Socket-Type''"
        "cstr ''REP''" "[(cstr ''Identity'', [1, 2])]", unfolded tk dec disp init]
  have d: "dispatched ?opts property True (fst (decode_properties buf)) (mechanism_init ()) =
             [] @ (cstr ''Socket-Type'', cstr ''REP'') # [(cstr ''Identity'', [1, 2])]"
    unfolding dec disp by (rule split)
  have z: "zap_properties (snd (parse_metadata ?opts property buf (length buf) True
             (mechanism_init ()))) (cstr ''Socket-Type'') = Some (cstr ''REP'')"
    using r l split notin by blast
  have zz: "zap_properties (snd (parse_metadata ?opts property buf (length buf) True
              (mechanism_init ()))) =
            [cstr ''Socket-Type'' \<mapsto> cstr ''REP'', cstr ''Identity'' \<mapsto> [1, 2]]"
    using r l ins by simp
  have f: "zmtp_properties (snd (parse_metadata ?opts property buf (length buf) True
              (mechanism_init ()))) = Map.empty"
    using r by simp
  from l d notin z zz f show ?thesis
    unfolding buf_def by (intro conjI)
qed

section \<open>Rejected properties\<close>

text \<open>
  C7: when the property that follows the dispatched properties \<open>ps\<close> is a Socket-Type
  property whose value the compatibility check refuses, or a property for which the
  virtual \<^verbatim>\<open>property\<close> returns -1, \<^verbatim>\<open>parse_metadata\<close> returns failure at once: the
  state is the one after \<open>ps\<close> (with what the rejecting \<^verbatim>\<open>property\<close> call did to the
  derived class), the rejected property is in neither dictionary, and whatever bytes
  \<open>rest\<close> follow, in whatever number \<open>k\<close>, have no effect. The incompatible role is
  reported as \<open>EINVAL\<close>, which is not \<open>EPROTO\<close>.
\<close>
theorem parse_metadata_stops_at_rejection:
  assumes "list_all wire_property ps" and "length name \<le> 255" and "length value < 2 ^ 32"
      and "process_properties opts prop zap_flag ps m = (Inr (), m1)"
  shows "(name = ZMTP_PROPERTY_SOCKET_TYPE \<and> \<not> check_socket_type opts value \<longrightarrow>
            parse_metadata opts prop (property_list_bytes ps @ property_bytes name value @ rest)
              (length (property_list_bytes ps) + (length (property_bytes name value) + k))
              zap_flag m = (Inl EINVAL, m1))
       \<and> (name \<noteq> ZMTP_PROPERTY_SOCKET_TYPE
            \<and> \<not> (name = ZMTP_PROPERTY_IDENTITY \<and> recv_routing_id opts)
            \<and> prop name value (derived m1) = (- 1, h) \<longrightarrow>
            parse_metadata opts prop (property_list_bytes ps @ property_bytes name value @ rest)
              (length (property_list_bytes ps) + (length (property_bytes name value) + k))
              zap_flag m = (Inl PropertyRejected, m1\<lparr>derived := h\<rparr>))
       \<and> EINVAL \<noteq> EPROTO"
proof -
  have step: "parse_metadata opts prop (property_list_bytes ps @ property_bytes name value @ rest)
              (length (property_list_bytes ps) + (length (property_bytes name value) + k))
              zap_flag m =
          (case dispatch opts prop name value (length value) m1 of
            (Inl e, m') \<Rightarrow> (Inl e, m')
          | (Inr u, m') \<Rightarrow>
              parse_metadata opts prop rest k zap_flag
                (record_property zap_flag name value (length value) m'))"
    unfolding parse_metadata_property_list [OF assms(1)] assms(4)
    by (simp only: prod.case sum.case parse_metadata_property_bytes [OF assms(2,3)])
  have a: "name = ZMTP_PROPERTY_SOCKET_TYPE \<and> \<not> check_socket_type opts value \<Longrightarrow>
             dispatch opts prop name value (length value) m1 = (Inl EINVAL, m1)"
    by (simp add: dispatch_def socket_type_name_not_identity)
  have b: "name \<noteq> ZMTP_PROPERTY_SOCKET_TYPE
            \<and> \<not> (name = ZMTP_PROPERTY_IDENTITY \<and> recv_routing_id opts)
            \<and> prop name value (derived m1) = (- 1, h) \<Longrightarrow>
             dispatch opts prop name value (length value) m1 = (Inl PropertyRejected, m1\<lparr>derived := h\<rparr>)"
    by (auto simp: dispatch_def)
  show ?thesis
    unfolding step using a b by auto
qed

theorem parse_metadata_stops_at_rejection_witness:
  "parse_metadata \<lparr>type = ZMQ_REQ, routing_id_size = 0, routing_id = [], recv_routing_id = True\<rparr>
     property
     (property_list_bytes [(cstr ''Identity'', [1, 2])]
        @ property_bytes (cstr ''Socket-Type'') (cstr ''PUB'') @ property_bytes [120] [121])
     (length (property_list_bytes [(cstr ''Identity'', [1, 2 :: byte])])
        + (length (property_bytes (cstr ''Socket-Type'') (cstr ''PUB'')) + 7))
     False (mechanism_init ()) =
   (Inl EINVAL,
    \<lparr>peer_id = [1, 2], user_id = [], zmtp_properties = [cstr ''Identity'' \<mapsto> [1, 2]],
     zap_properties = Map.empty, derived = ()\<rparr>)"
proof -
  have p: "process_properties
             \<lparr>type = ZMQ_REQ, routing_id_size = 0, routing_id = [], recv_routing_id = True\<rparr>
             property False [(cstr ''Identity'', [1, 2])] (mechanism_init ()) =
           (Inr (), \<lparr>peer_id = [1, 2], user_id = [], zmtp_properties = [cstr ''Identity'' \<mapsto> [1, 2]],
                     zap_properties = Map.empty, derived = ()\<rparr>)"
    by (simp add: dispatch_def ZMTP_PROPERTY_IDENTITY_def set_peer_routing_id_def
          record_property_def dict_insert_def mechanism_init_def)
  have w: "list_all wire_property [(cstr ''Identity'', [1, 2 :: byte])]"
    by (simp add: wire_property_def cstr_def)
  have n: "length (cstr ''Socket-Type'') \<le> 255" "length (cstr ''PUB'') < 2 ^ 32"
    by (simp_all add: cstr_def)
  have c: "\<not> check_socket_type
              \<lparr>type = ZMQ_REQ, routing_id_size = 0, routing_id = [], recv_routing_id = True\<rparr>
              (cstr ''PUB'')"
    by (simp add: check_socket_type_def cstr_def)
  from parse_metadata_stops_at_rejection [OF w n p, of "property_bytes [120] [121]" 7 "()"] c
  show ?thesis
    by (simp add: ZMTP_PROPERTY_SOCKET_TYPE_def)
qed

section \<open>Encoding and decoding one property\<close>

text \<open>
  C3, in the form that holds of the code: for every name of at most 255 bytes and value of at most \<open>2^31 - 1\<close>
  bytes, \<^verbatim>\<open>add_property\<close> (given the capacity) writes exactly the
  \<open>1 + |name| + 4 + |value|\<close> bytes of the property, leaves the rest of the buffer as
  it was and returns that number, which is what \<^verbatim>\<open>property_len\<close> computes;
  \<^verbatim>\<open>parse_metadata\<close> on exactly those bytes decodes the identical pair and dispatches
  it. The parse succeeds, recording the pair, unless the dispatch rejects the pair; with
  the default \<^verbatim>\<open>property\<close> it succeeds for every pair that is not a Socket-Type
  property with an incompatible value.
\<close>
theorem add_property_round_trip:
  assumes "length name \<le> 255" and "length value \<le> 2 ^ 31 - 1"
      and "property_len (length name) (length value) \<le> ptr_capacity"
      and "ptr_capacity \<le> length ptr"
  shows "add_property ptr ptr_capacity name value (length value) =
           Inr (property_bytes name value @ drop (1 + length name + 4 + length value) ptr,
                1 + length name + 4 + length value)
       \<and> length (property_bytes name value) = 1 + length name + 4 + length value
       \<and> property_len (length name) (length value) = 1 + length name + 4 + length value
       \<and> mechanism_property_len name (length value) = Inr (1 + length name + 4 + length value)
       \<and> parse_metadata opts prop (property_bytes name value @ beyond)
             (1 + length name + 4 + length value) zap_flag m =
           (case dispatch opts prop name value (length value) m of
              (Inl e, m') \<Rightarrow> (Inl e, m')
            | (Inr u, m') \<Rightarrow> (Inr (), record_property zap_flag name value (length value) m'))
       \<and> (name \<noteq> ZMTP_PROPERTY_SOCKET_TYPE \<or> check_socket_type opts value \<longrightarrow>
            fst (parse_metadata opts property (property_bytes name value @ beyond)
                   (1 + length name + 4 + length value) zap_flag m) = Inr ())"
proof -
  from assms(2) have vl: "length value \<le> 0x7FFFFFFF" "length value < 2 ^ 32"
    by simp_all
  have total: "property_len (length name) (length value) = 5 + length name + length value"
    using assms(1) vl by (simp add: property_len_def size_t_wrap_def)
  have 1: "add_property ptr ptr_capacity name value (length value) =
           Inr (property_bytes name value @ drop (1 + length name + 4 + length value) ptr,
                1 + length name + 4 + length value)"
    using add_property_ok [OF assms(1) vl(1), of "value" ptr_capacity ptr] assms(3,4)
    by (simp add: total)
  have 4: "mechanism_property_len name (length value) = Inr (1 + length name + 4 + length value)"
    using assms(1) by (simp add: mechanism_property_len_def name_len_def strlen_def total)
  have 5: "parse_metadata opts p (property_bytes name value @ beyond)
             (1 + length name + 4 + length value) zap_flag m =
           (case dispatch opts p name value (length value) m of
              (Inl e, m') \<Rightarrow> (Inl e, m')
            | (Inr u, m') \<Rightarrow> (Inr (), record_property zap_flag name value (length value) m'))" for p
    using parse_metadata_property_bytes [OF assms(1) vl(2), of opts p beyond 0 zap_flag m]
    by (simp add: parse_metadata_short split: prod.splits sum.splits)
  have 6: "name \<noteq> ZMTP_PROPERTY_SOCKET_TYPE \<or> check_socket_type opts value \<Longrightarrow>
            fst (parse_metadata opts property (property_bytes name value @ beyond)
                   (1 + length name + 4 + length value) zap_flag m) = Inr ()"
    unfolding 5 by (auto simp: dispatch_def property_def)
  from 1 total 4 5 6 show ?thesis by simp
qed

theorem add_property_round_trip_witness:
  "add_property (replicate 12 0) 12 [97, 98] [7, 8] 2 =
     Inr ([2, 97, 98, 0, 0, 0, 2, 7, 8, 0, 0, 0], 9)
   \<and> parse_metadata \<lparr>type = ZMQ_REQ, routing_id_size = 0, routing_id = [], recv_routing_id = True\<rparr>
        property [2, 97, 98, 0, 0, 0, 2, 7, 8] 9 False (mechanism_init ()) =
       (Inr (), \<lparr>peer_id = [], user_id = [], zmtp_properties = [[97, 98] \<mapsto> [7, 8]],
                  zap_properties = Map.empty, derived = ()\<rparr>)"
proof -
  have a: "length [97, 98 :: byte] \<le> 255" "length [7, 8 :: byte] \<le> 2 ^ 31 - 1"
    "property_len (length [97, 98 :: byte]) (length [7, 8 :: byte]) \<le> 12"
    "12 \<le> length (replicate 12 (0 :: byte))"
    by (simp_all add: property_len_def size_t_wrap_def)
  have b: "property_bytes [97, 98] [7, 8] = [2, 97, 98, 0, 0, 0, 2, 7, 8]"
    by (simp add: property_bytes_def put_uint32_def)
  have r: "drop 9 (replicate 12 (0 :: byte)) = [0, 0, 0]"
    by (simp add: numeral_eq_Suc)
  have l: "length [7, 8 :: byte] = 2" "1 + length [97, 98 :: byte] + 4 + length [7, 8 :: byte] = 9"
    by simp_all
  have d: "dispatch \<lparr>type = ZMQ_REQ, routing_id_size = 0, routing_id = [], recv_routing_id = True\<rparr>
             property [97, 98] [7, 8] 2 (mechanism_init ()) = (Inr (), mechanism_init ())"
    by (simp add: dispatch_def property_def ZMTP_PROPERTY_IDENTITY_def
          ZMTP_PROPERTY_SOCKET_TYPE_def cstr_def mechanism_init_def)
  have rp: "record_property False [97, 98] [7, 8] 2 (mechanism_init ()) =
              \<lparr>peer_id = [], user_id = [], zmtp_properties = [[97, 98] \<mapsto> [7, 8]],
                zap_properties = Map.empty, derived = ()\<rparr>"
    by (simp add: record_property_def dict_insert_def mechanism_init_def)
  note t = add_property_round_trip [OF a,
      of "\<lparr>type = ZMQ_REQ, routing_id_size = 0, routing_id = [], recv_routing_id = True\<rparr>"
         property "[]" False "mechanism_init ()", unfolded l b r d rp append_Nil2]
  have r3: "replicate 3 (0 :: byte) = [0, 0, 0]"
    by (simp add: numeral_3_eq_3)
  from t show ?thesis by (simp add: r3 rp)
qed

theorem add_property_round_trip_counterexample:
  "length (cstr ''Socket-Type'') \<le> 255 \<and> length (cstr ''PUB'') \<le> 2 ^ 31 - 1
   \<and> add_property (replicate 19 0) 19 (cstr ''Socket-Type'') (cstr ''PUB'') 3 =
       Inr ([11, 83, 111, 99, 107, 101, 116, 45, 84, 121, 112, 101, 0, 0, 0, 3, 80, 85, 66], 19)
   \<and> parse_metadata \<lparr>type = ZMQ_REQ, routing_id_size = 0, routing_id = [], recv_routing_id = True\<rparr>
        property [11, 83, 111, 99, 107, 101, 116, 45, 84, 121, 112, 101, 0, 0, 0, 3, 80, 85, 66] 19
        False (mechanism_init ()) =
       (Inl EINVAL, mechanism_init ())"
proof -
  have a: "length (cstr ''Socket-Type'') \<le> 255" "length (cstr ''PUB'') \<le> 0x7FFFFFFF"
    "3 \<le> length (cstr ''PUB'')"
    "5 + length (cstr ''Socket-Type'') + 3 \<le> 19"
    "19 \<le> length (replicate 19 (0 :: byte))"
    by (simp_all add: cstr_def)
  from add_property_ok [OF a(1) _ a(3,4,5)]
  have ap: "add_property (replicate 19 0) 19 (cstr ''Socket-Type'') (cstr ''PUB'') 3 =
       Inr ([11, 83, 111, 99, 107, 101, 116, 45, 84, 121, 112, 101, 0, 0, 0, 3, 80, 85, 66], 19)"
    by (simp add: cstr_def property_bytes_def put_uint32_def)
  have p: "parse_metadata
             \<lparr>type = ZMQ_REQ, routing_id_size = 0, routing_id = [], recv_routing_id = True\<rparr>
             property [11, 83, 111, 99, 107, 101, 116, 45, 84, 121, 112, 101, 0, 0, 0, 3, 80, 85, 66]
             19 False (mechanism_init ()) = (Inl EINVAL, mechanism_init ())"
    by (simp add: parse_metadata_def parse_loop.simps loop_body_def get_uint32_def dispatch_def
          check_socket_type_def ZMTP_PROPERTY_IDENTITY_def ZMTP_PROPERTY_SOCKET_TYPE_def cstr_def)
  from a(1,2) ap p show ?thesis by simp
qed

section \<open>The result of a parse\<close>

text \<open>
  C1, in the form that holds of the code. Let the byte range be the first \<open>len\<close> bytes at \<open>ptr\<close>, let its
  complete properties be dispatched in order, and let the tail be what is left over behind
  them. If the dispatch rejects one of the complete properties, \<^verbatim>\<open>parse_metadata\<close>
  fails with that property's error. Otherwise, if the tail does not stop exactly behind
  its name or exactly behind its value length field: \<^verbatim>\<open>parse_metadata\<close> returns
  success exactly when the range is a concatenation of complete well-formed properties,
  and fails with \<open>EPROTO\<close> when it is not. A range that is such a concatenation has an
  empty tail. Nothing is said on a tail that stops exactly behind one of these two fields.
\<close>
theorem parse_metadata_result:
  assumes "len \<le> length ptr"
  shows "(\<not> cut_at_field_end (snd (decode_properties (take len ptr))) \<longrightarrow>
            (fst (parse_metadata opts prop ptr len zap_flag m) = Inr () \<longleftrightarrow>
               is_property_list (take len ptr)
               \<and> fst (process_properties opts prop zap_flag
                        (fst (decode_properties (take len ptr))) m) = Inr ()))
       \<and> (\<not> is_property_list (take len ptr)
            \<and> \<not> cut_at_field_end (snd (decode_properties (take len ptr)))
            \<and> fst (process_properties opts prop zap_flag
                     (fst (decode_properties (take len ptr))) m) = Inr () \<longrightarrow>
            fst (parse_metadata opts prop ptr len zap_flag m) = Inl EPROTO)
       \<and> (fst (process_properties opts prop zap_flag
                  (fst (decode_properties (take len ptr))) m) = Inl e \<longrightarrow>
            fst (parse_metadata opts prop ptr len zap_flag m) = Inl e)
       \<and> (is_property_list (take len ptr) \<longrightarrow>
            \<not> cut_at_field_end (snd (decode_properties (take len ptr))))"
proof -
  define tail where "tail = snd (decode_properties (take len ptr))"
  obtain r m1 where p: "process_properties opts prop zap_flag
                          (fst (decode_properties (take len ptr))) m = (r, m1)"
    by (cases "process_properties opts prop zap_flag (fst (decode_properties (take len ptr))) m")
  have wf: "is_property_list (take len ptr) \<longleftrightarrow> tail = []"
    by (simp add: is_property_list_decode tail_def)
  have nocut: "\<not> cut_at_field_end []"
    by (simp add: cut_at_field_end_def)
  have res: "fst (parse_metadata opts prop ptr len zap_flag m) =
               (case r of Inl e \<Rightarrow> Inl e
                | Inr u \<Rightarrow> if tail = [] \<or> cut_at_field_end tail then Inr () else Inl EPROTO)"
    unfolding parse_metadata_decode [OF assms] p tail_def [symmetric]
    using residue_zero [of tail]
    by (auto split: sum.splits)
  show ?thesis
    unfolding tail_def [symmetric] wf res p
    using nocut by (cases r) auto
qed

theorem parse_metadata_result_witness:
  "fst (parse_metadata \<lparr>type = ZMQ_REQ, routing_id_size = 0, routing_id = [], recv_routing_id = True\<rparr>
          property [1, 97, 0, 0, 0, 1, 98, 7] 7 False (mechanism_init ())) = Inr ()
   \<and> fst (parse_metadata \<lparr>type = ZMQ_REQ, routing_id_size = 0, routing_id = [], recv_routing_id = True\<rparr>
          property [1, 97, 0, 0, 0, 1, 98, 7] 8 False (mechanism_init ())) = Inl EPROTO"
proof -
  let ?opts = "\<lparr>type = ZMQ_REQ, routing_id_size = 0, routing_id = [], recv_routing_id = True\<rparr>"
  have b: "property_bytes [97] [98] = [1, 97, 0, 0, 0, 1, 98]"
    by (simp add: property_bytes_def put_uint32_def)
  have w: "list_all wire_property [([97 :: byte], [98 :: byte])]"
    by (simp add: wire_property_def)
  have d7: "decode_properties [1, 97, 0, 0, 0, 1, 98] = ([([97], [98])], [])"
    using decode_properties_property_list_bytes [OF w, of "[]"]
    by (simp add: b decode_properties_Nil)
  have d1: "decode_properties [7] = ([], [7])"
    by (subst decode_properties.simps) simp
  have d8: "decode_properties [1, 97, 0, 0, 0, 1, 98, 7] = ([([97], [98])], [7])"
    using decode_properties_property_list_bytes [OF w, of "[7]"]
    by (simp add: b d1)
  have pl7: "is_property_list [1, 97, 0, 0, 0, 1, 98]"
    by (simp add: is_property_list_decode d7)
  have pl8: "\<not> is_property_list [1, 97, 0, 0, 0, 1, 98, 7]"
    by (simp add: is_property_list_decode d8)
  have c: "\<not> cut_at_field_end []" "\<not> cut_at_field_end [7]"
    by (simp_all add: cut_at_field_end_def)
  have acc: "fst (process_properties ?opts property False [([97], [98])] (mechanism_init ())) = Inr ()"
    by (simp add: dispatch_def property_def ZMTP_PROPERTY_IDENTITY_def
          ZMTP_PROPERTY_SOCKET_TYPE_def cstr_def)
  have l: "(7 :: nat) \<le> length [1, 97, 0, 0, 0, 1, 98, 7 :: byte]"
    "(8 :: nat) \<le> length [1, 97, 0, 0, 0, 1, 98, 7 :: byte]"
    by simp_all
  have t: "take 7 [1, 97, 0, 0, 0, 1, 98, 7 :: byte] = [1, 97, 0, 0, 0, 1, 98]"
    "take 8 [1, 97, 0, 0, 0, 1, 98, 7 :: byte] = [1, 97, 0, 0, 0, 1, 98, 7]"
    by simp_all
  note r7 = parse_metadata_result [OF l(1), of ?opts property False "mechanism_init ()" EPROTO,
      unfolded t d7 fst_conv snd_conv]
  note r8 = parse_metadata_result [OF l(2), of ?opts property False "mechanism_init ()" EPROTO,
      unfolded t d8 fst_conv snd_conv]
  from r7 r8 pl7 pl8 c acc show ?thesis by blast
qed

theorem parse_metadata_result_counterexample:
  "property_bytes (cstr ''Socket-Type'') (cstr ''PUB'') =
     [11, 83, 111, 99, 107, 101, 116, 45, 84, 121, 112, 101, 0, 0, 0, 3, 80, 85, 66]
   \<and> is_property_list [11, 83, 111, 99, 107, 101, 116, 45, 84, 121, 112, 101, 0, 0, 0, 3, 80, 85, 66]
   \<and> fst (parse_metadata
            \<lparr>type = ZMQ_REQ, routing_id_size = 0, routing_id = [], recv_routing_id = True\<rparr>
            property [11, 83, 111, 99, 107, 101, 116, 45, 84, 121, 112, 101, 0, 0, 0, 3, 80, 85, 66]
            19 False (mechanism_init ())) = Inl EINVAL"
proof -
  have b: "property_bytes (cstr ''Socket-Type'') (cstr ''PUB'') =
     [11, 83, 111, 99, 107, 101, 116, 45, 84, 121, 112, 101, 0, 0, 0, 3, 80, 85, 66]"
    by (simp add: property_bytes_def cstr_def put_uint32_def)
  have w: "list_all wire_property [(cstr ''Socket-Type'', cstr ''PUB'')]"
    by (simp add: wire_property_def cstr_def)
  have "is_property_list (property_list_bytes [(cstr ''Socket-Type'', cstr ''PUB'')])"
    unfolding is_property_list_def using w by blast
  then have pl: "is_property_list
      [11, 83, 111, 99, 107, 101, 116, 45, 84, 121, 112, 101, 0, 0, 0, 3, 80, 85, 66]"
    by (simp add: b)
  have p: "fst (parse_metadata
            \<lparr>type = ZMQ_REQ, routing_id_size = 0, routing_id = [], recv_routing_id = True\<rparr>
            property [11, 83, 111, 99, 107, 101, 116, 45, 84, 121, 112, 101, 0, 0, 0, 3, 80, 85, 66]
            19 False (mechanism_init ())) = Inl EINVAL"
    by (simp add: parse_metadata_def parse_loop.simps loop_body_def get_uint32_def dispatch_def
          check_socket_type_def ZMTP_PROPERTY_IDENTITY_def ZMTP_PROPERTY_SOCKET_TYPE_def cstr_def)
  from b pl p show ?thesis by blast
qed

section \<open>A property cut before its one-byte value\<close>

text \<open>
  A stray byte behind the accepted properties \<open>ps\<close>, and a final property of two or more
  value bytes that misses its last byte, both end in \<open>EPROTO\<close>.
\<close>

lemma parse_metadata_stray_byte:
  assumes "list_all wire_property ps"
      and "process_properties opts prop zap_flag ps m = (Inr (), m1)"
  shows "parse_metadata opts prop (property_list_bytes ps @ b # beyond)
           (length (property_list_bytes ps) + 1) zap_flag m = (Inl EPROTO, m1)"
  unfolding parse_metadata_property_list [OF assms(1)] assms(2)
  by (simp add: parse_metadata_short)

lemma parse_metadata_missing_value_byte:
  assumes "list_all wire_property ps" and "length name \<le> 255"
      and "2 \<le> length value" and "length value < 2 ^ 32"
      and "process_properties opts prop zap_flag ps m = (Inr (), m1)"
  shows "parse_metadata opts prop
           (property_list_bytes ps @ butlast (property_bytes name value) @ beyond)
           (length (property_list_bytes ps) + length (butlast (property_bytes name value)))
           zap_flag m = (Inl EPROTO, m1)"
proof -
  define t where "t = butlast (property_bytes name value)"
  from assms(3) have ne: "value \<noteq> []" by auto
  have t: "t = of_nat (length name) # name @ put_uint32 (of_nat (length value)) @ butlast value"
    using ne by (simp add: t_def property_bytes_def butlast_append)
  have len: "length t = 4 + length name + length value"
    using assms(3) by (simp add: t)
  have hd: "unat (hd t) = length name"
    using assms(2) by (simp add: t unat_byte_of_nat)
  have "drop (1 + length name) t = put_uint32 (of_nat (length value)) @ butlast value"
    by (simp add: t)
  then have vl: "unat (get_uint32 (drop (1 + length name) t)) = length value"
    using assms(4) by (simp only: get_put_uint32 unat_u32_of_nat)
  have dec: "fst (decode_properties t) = []"
    using assms(3)
    by (subst decode_properties.simps) (simp add: Let_def len hd vl del: One_nat_def)
  have res: "0 < residue t"
    using assms(3) by (simp add: residue_def Let_def len hd)
  have "parse_metadata opts prop (t @ beyond) (length t) zap_flag m1 = (Inl EPROTO, m1)"
    using res by (simp add: parse_metadata_def parse_loop_tail [OF dec])
  then show ?thesis
    unfolding t_def [symmetric] parse_metadata_property_list [OF assms(1)] assms(5)
    by simp
qed

text \<open>
  C6: the specification asks for \<open>EPROTO\<close> on a buffer whose final property is missing
  its last value byte. When that property has a value of exactly one byte, the loop is
  left by the \<^verbatim>\<open>break\<close> of line 199 with \<open>bytes_left = 0\<close>, the test of line 229
  finds nothing left, and \<^verbatim>\<open>parse_metadata\<close> returns success, with the state that the
  properties before it left behind.
\<close>
theorem parse_metadata_accepts_missing_value_byte:
  assumes "list_all wire_property ps" and "length name \<le> 255"
      and "process_properties opts prop zap_flag ps m = (Inr (), m1)"
  shows "parse_metadata opts prop
           (property_list_bytes ps @ butlast (property_bytes name [x]) @ beyond)
           (length (property_list_bytes ps) + length (butlast (property_bytes name [x])))
           zap_flag m = (Inr (), m1)"
proof -
  define t where "t = butlast (property_bytes name [x])"
  have t: "t = of_nat (length name) # name @ put_uint32 1"
    by (simp add: t_def property_bytes_def butlast_append)
  have len: "length t = 5 + length name"
    by (simp add: t)
  have hd: "unat (hd t) = length name"
    using assms(2) by (simp add: t unat_byte_of_nat)
  have "drop (1 + length name) t = put_uint32 1 @ []"
    by (simp add: t)
  then have vl: "unat (get_uint32 (drop (1 + length name) t)) = 1"
    by (simp only: get_put_uint32) simp
  have dec: "fst (decode_properties t) = []"
    by (subst decode_properties.simps) (simp add: Let_def len hd vl del: One_nat_def)
  have res: "residue t = 0"
    by (simp add: residue_zero cut_at_field_end_def len hd)
  have "parse_metadata opts prop (t @ beyond) (length t) zap_flag m1 = (Inr (), m1)"
    by (simp add: parse_metadata_def parse_loop_tail [OF dec] res)
  then show ?thesis
    unfolding t_def [symmetric] parse_metadata_property_list [OF assms(1)] assms(3)
    by simp
qed

theorem parse_metadata_accepts_missing_value_byte_witness:
  "butlast (property_bytes [97] [98]) = [1, 97, 0, 0, 0, 1]
   \<and> parse_metadata \<lparr>type = ZMQ_REQ, routing_id_size = 0, routing_id = [], recv_routing_id = True\<rparr>
        property [1, 97, 0, 0, 0, 1] 6 False (mechanism_init ()) = (Inr (), mechanism_init ())"
proof -
  have b: "butlast (property_bytes [97] [98]) = [1, 97, 0, 0, 0, 1]"
    by (simp add: property_bytes_def put_uint32_def)
  have w: "list_all wire_property []" "length [97 :: byte] \<le> 255"
    by simp_all
  have p: "process_properties
             \<lparr>type = ZMQ_REQ, routing_id_size = 0, routing_id = [], recv_routing_id = True\<rparr>
             property False [] (mechanism_init ()) = (Inr (), mechanism_init ())"
    by simp
  have six: "length [1, 97, 0, 0, 0, 1 :: byte] = 6"
    by simp
  note r = parse_metadata_accepts_missing_value_byte [OF w p, of 98 "[]", unfolded b six]
  from r b show ?thesis by simp
qed

section \<open>Writing a key twice\<close>

lemma dict_insert_all_twice:
  assumes "name \<notin> fst ` set ds3"
  shows "dict_insert_all (ds1 @ (name, v1) # ds2 @ (name, v2) # ds3) d name = Some v2"
  using dict_insert_all_last [OF assms, of "ds1 @ (name, v1) # ds2" v2 d]
  by simp

text \<open>
  C5: in each dictionary keys are unique and the last write wins. After
  \<^verbatim>\<open>set_user_id\<close> the authentication-facing dictionary maps "User-Id" to the value
  just given, whether or not the key was present, and every other key as before. After
  \<^verbatim>\<open>parse_metadata\<close> the selected dictionary is the old one overridden, name by name, by
  the last dispatched property of that name; when two properties of one name were
  dispatched and none of that name after them, the name maps to the value of the second.
\<close>
theorem dictionary_last_write_wins:
  "zap_properties (set_user_id data data_size m) ZMQ_MSG_PROPERTY_USER_ID =
     Some (take data_size data)
   \<and> (k \<noteq> ZMQ_MSG_PROPERTY_USER_ID \<longrightarrow>
        zap_properties (set_user_id data data_size m) k = zap_properties m k)
   \<and> (len \<le> length ptr \<longrightarrow>
        zap_properties (snd (parse_metadata opts prop ptr len True m)) =
          zap_properties m
            ++ map_of (rev (dispatched opts prop True (fst (decode_properties (take len ptr))) m))
      \<and> zmtp_properties (snd (parse_metadata opts prop ptr len False m)) =
          zmtp_properties m
            ++ map_of (rev (dispatched opts prop False (fst (decode_properties (take len ptr))) m))
      \<and> (dispatched opts prop True (fst (decode_properties (take len ptr))) m =
            ds1 @ (name, v1) # ds2 @ (name, v2) # ds3 \<and> name \<notin> fst ` set ds3 \<longrightarrow>
          zap_properties (snd (parse_metadata opts prop ptr len True m)) name = Some v2)
      \<and> (dispatched opts prop False (fst (decode_properties (take len ptr))) m =
            ds1 @ (name, v1) # ds2 @ (name, v2) # ds3 \<and> name \<notin> fst ` set ds3 \<longrightarrow>
          zmtp_properties (snd (parse_metadata opts prop ptr len False m)) name = Some v2))"
proof -
  have u: "zap_properties (set_user_id data data_size m) ZMQ_MSG_PROPERTY_USER_ID =
             Some (take data_size data)"
    "k \<noteq> ZMQ_MSG_PROPERTY_USER_ID \<longrightarrow>
        zap_properties (set_user_id data data_size m) k = zap_properties m k"
    by (simp_all add: set_user_id_def dict_insert_def)
  have sel: "len \<le> length ptr \<Longrightarrow>
      zap_properties (snd (parse_metadata opts prop ptr len True m)) =
          dict_insert_all (dispatched opts prop True (fst (decode_properties (take len ptr))) m)
            (zap_properties m)
      \<and> zmtp_properties (snd (parse_metadata opts prop ptr len False m)) =
          dict_insert_all (dispatched opts prop False (fst (decode_properties (take len ptr))) m)
            (zmtp_properties m)"
    using process_properties_selected_dict
            [of True opts "prop" "fst (decode_properties (take len ptr))" m]
          process_properties_selected_dict
            [of False opts "prop" "fst (decode_properties (take len ptr))" m]
    by (simp add: parse_metadata_state)
  have ma: "len \<le> length ptr \<Longrightarrow>
        zap_properties (snd (parse_metadata opts prop ptr len True m)) =
          zap_properties m
            ++ map_of (rev (dispatched opts prop True (fst (decode_properties (take len ptr))) m))
      \<and> zmtp_properties (snd (parse_metadata opts prop ptr len False m)) =
          zmtp_properties m
            ++ map_of (rev (dispatched opts prop False (fst (decode_properties (take len ptr))) m))"
    using sel by (simp add: dict_insert_all_map_add)
  have twice: "len \<le> length ptr \<Longrightarrow>
      dispatched opts prop True (fst (decode_properties (take len ptr))) m =
            ds1 @ (name, v1) # ds2 @ (name, v2) # ds3 \<and> name \<notin> fst ` set ds3 \<Longrightarrow>
      zap_properties (snd (parse_metadata opts prop ptr len True m)) name = Some v2"
    "len \<le> length ptr \<Longrightarrow>
      dispatched opts prop False (fst (decode_properties (take len ptr))) m =
            ds1 @ (name, v1) # ds2 @ (name, v2) # ds3 \<and> name \<notin> fst ` set ds3 \<Longrightarrow>
      zmtp_properties (snd (parse_metadata opts prop ptr len False m)) name = Some v2"
    using sel by (simp_all add: dict_insert_all_twice)
  from u ma twice show ?thesis by blast
qed

theorem dictionary_last_write_wins_witness:
  "zap_properties (set_user_id [98] 1 (set_user_id [97] 1 (mechanism_init ())))
     ZMQ_MSG_PROPERTY_USER_ID = Some [98]
   \<and> dispatched \<lparr>type = ZMQ_REQ, routing_id_size = 0, routing_id = [], recv_routing_id = True\<rparr>
        property False
        (fst (decode_properties (take 14 [1, 120, 0, 0, 0, 1, 1, 1, 120, 0, 0, 0, 1, 2])))
        (mechanism_init ()) = [] @ ([120], [1]) # [] @ ([120], [2]) # []
   \<and> zmtp_properties (snd (parse_metadata
         \<lparr>type = ZMQ_REQ, routing_id_size = 0, routing_id = [], recv_routing_id = True\<rparr> property
         [1, 120, 0, 0, 0, 1, 1, 1, 120, 0, 0, 0, 1, 2] 14 False (mechanism_init ()))) [120] =
       Some [2]"
proof -
  let ?opts = "\<lparr>type = ZMQ_REQ, routing_id_size = 0, routing_id = [], recv_routing_id = True\<rparr>"
  let ?m1 = "set_user_id [97] 1 (mechanism_init () :: unit mechanism_t)"
  let ?buf = "[1, 120, 0, 0, 0, 1, 1, 1, 120, 0, 0, 0, 1, 2 :: byte]"
  have tk1: "take 1 [98 :: byte] = [98]"
    by simp
  have a: "zap_properties (set_user_id [98] 1 ?m1) ZMQ_MSG_PROPERTY_USER_ID = Some [98]"
    using dictionary_last_write_wins [of "[98]" 1 ?m1] unfolding tk1 by blast
  have b: "property_list_bytes [([120], [1]), ([120], [2])] @ [] = ?buf"
    by (simp add: property_bytes_def put_uint32_def)
  have w: "list_all wire_property [([120 :: byte], [1 :: byte]), ([120], [2])]"
    by (simp add: wire_property_def)
  have t: "take 14 ?buf = ?buf"
    by simp
  have dec: "fst (decode_properties ?buf) = [([120], [1]), ([120], [2])]"
    using decode_properties_property_list_bytes [OF w, of "[]"]
    by (simp only: b) (simp add: decode_properties_Nil)
  have disp: "dispatched ?opts property False [([120], [1]), ([120], [2])] (mechanism_init ()) =
                [([120], [1]), ([120], [2])]"
    by (simp add: dispatch_def property_def ZMTP_PROPERTY_SOCKET_TYPE_def
          ZMTP_PROPERTY_IDENTITY_def cstr_def)
  have d: "dispatched ?opts property False (fst (decode_properties (take 14 ?buf)))
             (mechanism_init ()) = [] @ ([120], [1]) # [] @ ([120], [2]) # []"
    unfolding t dec disp by simp
  have l: "(14 :: nat) \<le> length ?buf"
    by simp
  have n: "[120 :: byte] \<notin> fst ` set ([] :: (byte list \<times> byte list) list)"
    by simp
  have z: "zmtp_properties (snd (parse_metadata ?opts property ?buf 14 False (mechanism_init ())))
             [120] = Some [2]"
    using dictionary_last_write_wins
      [of "[]" 0 "mechanism_init ()" "[]" 14 ?buf ?opts property "[]" "[120]" "[1]" "[]" "[2]" "[]"]
      l d n
    by blast
  from a d z show ?thesis by (intro conjI)
qed

section \<open>Bounds on names and values\<close>

lemma dispatched_subset:
  "set (dispatched opts prop zap_flag ps m) \<subseteq> set ps"
proof (induction ps arbitrary: m)
  case Nil
  then show ?case by simp
next
  case (Cons p ps)
  obtain name "value" where p: "p = (name, value)" by (cases p)
  from Cons.IH show ?case
    by (auto simp: p split: prod.splits sum.splits)
qed

lemma dispatch_peer_id:
  "dispatch opts prop name value (length value) m = (r, m') \<Longrightarrow>
     peer_id m' = peer_id m \<or> peer_id m' = value"
  by (auto simp: dispatch_def set_peer_routing_id_def Let_def split: if_splits prod.splits)

lemma process_properties_peer_id:
  "list_all wire_property ps \<Longrightarrow>
     peer_id (snd (process_properties opts prop zap_flag ps m)) = peer_id m
     \<or> length (peer_id (snd (process_properties opts prop zap_flag ps m))) < 2 ^ 32"
proof (induction ps arbitrary: m)
  case Nil
  then show ?case by simp
next
  case (Cons p ps)
  obtain name "value" where p: "p = (name, value)" by (cases p)
  obtain r m1 where d: "dispatch opts prop name value (length value) m = (r, m1)"
    by (cases "dispatch opts prop name value (length value) m")
  from Cons.prems have w: "length value < 2 ^ 32"
    by (simp add: p wire_property_def)
  from Cons.prems have ps: "list_all wire_property ps"
    by simp
  have rp: "peer_id (record_property zap_flag name value (length value) m1) = peer_id m1"
    by (simp add: record_property_def)
  show ?case
  proof (cases r)
    case (Inl e)
    with d dispatch_peer_id [OF d] w show ?thesis
      by (auto simp: p)
  next
    case (Inr u)
    with d dispatch_peer_id [OF d] w rp
      Cons.IH [OF ps, of "record_property zap_flag name value (length value) m1"]
    show ?thesis
      by (auto simp: p)
  qed
qed

lemma dispatch_cong_property:
  assumes "prop' name value (derived m) = prop name value (derived m)"
  shows "dispatch opts prop' name value (length value) m =
         dispatch opts prop name value (length value) m"
  using assms by (simp add: dispatch_def)

lemma process_properties_cong_property:
  assumes "\<And>name value h. length name \<le> 255 \<and> length value < 2 ^ 32 \<Longrightarrow>
             prop' name value h = prop name value h"
      and "list_all wire_property ps"
  shows "process_properties opts prop' zap_flag ps m = process_properties opts prop zap_flag ps m"
  using assms(2)
proof (induction ps arbitrary: m)
  case Nil
  then show ?case by simp
next
  case (Cons p ps)
  obtain name "value" where p: "p = (name, value)" by (cases p)
  from Cons.prems have w: "length name \<le> 255 \<and> length value < 2 ^ 32"
    by (simp add: p wire_property_def)
  from Cons.prems have ps: "list_all wire_property ps"
    by simp
  have "dispatch opts prop' name value (length value) m =
        dispatch opts prop name value (length value) m"
    by (rule dispatch_cong_property) (rule assms(1) [OF w])
  with Cons.IH [OF ps] show ?case
    by (simp add: p split: prod.splits sum.splits)
qed

lemma decode_properties_wire:
  "list_all wire_property (fst (decode_properties buf))"
  using decode_properties_sound [of buf "fst (decode_properties buf)" "snd (decode_properties buf)"]
  by simp

text \<open>
  C4, in the form that holds of the code: \<^verbatim>\<open>add_property\<close> aborts on a failed assertion, instead of encoding,
  whenever the name is longer than 255 bytes or the value longer than \<open>2^31 - 1\<close>
  bytes. \<^verbatim>\<open>parse_metadata\<close> never dispatches or records a property whose name is longer
  than 255 bytes or whose value is longer than \<open>2^32 - 1\<close> bytes, the largest length
  that the four-byte field can hold: whatever it adds to a dictionary and whatever it
  stores as peer routing identifier is within these bounds, and its result does not
  depend on what \<^verbatim>\<open>property\<close> would do outside these bounds. It does not bound the
  value by \<open>2^31 - 1\<close>.
\<close>
theorem codec_bounds:
  "(\<not> (length name \<le> 255 \<and> value_len \<le> 0x7FFFFFFF) \<longrightarrow>
      add_property buf buf_capacity name value value_len = Inl AssertFailed)
   \<and> (len \<le> length ptr \<longrightarrow>
        (zap_properties (snd (parse_metadata opts prop ptr len zap_flag m)) k = Some v \<longrightarrow>
           zap_properties m k = Some v \<or> (length k \<le> 255 \<and> length v < 2 ^ 32))
      \<and> (zmtp_properties (snd (parse_metadata opts prop ptr len zap_flag m)) k = Some v \<longrightarrow>
           zmtp_properties m k = Some v \<or> (length k \<le> 255 \<and> length v < 2 ^ 32))
      \<and> (peer_id (snd (parse_metadata opts prop ptr len zap_flag m)) = peer_id m
           \<or> length (peer_id (snd (parse_metadata opts prop ptr len zap_flag m))) < 2 ^ 32)
      \<and> ((\<forall>n' v' h. length n' \<le> 255 \<and> length v' < 2 ^ 32 \<longrightarrow> prop' n' v' h = prop n' v' h) \<longrightarrow>
           parse_metadata opts prop' ptr len zap_flag m =
           parse_metadata opts prop ptr len zap_flag m))"
proof -
  define ps where "ps = fst (decode_properties (take len ptr))"
  have w: "list_all wire_property ps"
    by (simp add: ps_def decode_properties_wire)
  have sub: "(k, v) \<in> set (dispatched opts prop zap_flag ps m) \<Longrightarrow>
               length k \<le> 255 \<and> length v < 2 ^ 32"
    using dispatched_subset [of opts "prop" zap_flag ps m] w
    by (force simp: list_all_iff wire_property_def)
  have mo: "(d ++ map_of (rev (dispatched opts prop zap_flag ps m))) k = Some v \<Longrightarrow>
              d k = Some v \<or> (length k \<le> 255 \<and> length v < 2 ^ 32)" for d
    using sub by (auto simp: map_add_def split: option.splits dest: map_of_SomeD)
  have st: "len \<le> length ptr \<Longrightarrow>
              snd (parse_metadata opts prop ptr len zap_flag m) =
              snd (process_properties opts prop zap_flag ps m)"
    by (simp add: parse_metadata_state ps_def)
  have dicts: "zap_properties (snd (process_properties opts prop zap_flag ps m)) k = Some v \<Longrightarrow>
                 zap_properties m k = Some v \<or> (length k \<le> 255 \<and> length v < 2 ^ 32)"
              "zmtp_properties (snd (process_properties opts prop zap_flag ps m)) k = Some v \<Longrightarrow>
                 zmtp_properties m k = Some v \<or> (length k \<le> 255 \<and> length v < 2 ^ 32)"
  proof -
    have sel: "(if zap_flag then zap_properties (snd (process_properties opts prop zap_flag ps m))
                else zmtp_properties (snd (process_properties opts prop zap_flag ps m))) =
               (if zap_flag then zap_properties m else zmtp_properties m)
                 ++ map_of (rev (dispatched opts prop zap_flag ps m))"
      by (simp only: process_properties_selected_dict dict_insert_all_map_add)
    have oth: "(if zap_flag then zmtp_properties (snd (process_properties opts prop zap_flag ps m))
                else zap_properties (snd (process_properties opts prop zap_flag ps m))) =
               (if zap_flag then zmtp_properties m else zap_properties m)"
    proof -
      have "take (length (property_list_bytes ps)) (property_list_bytes ps) = property_list_bytes ps"
        by simp
      moreover have "fst (decode_properties (property_list_bytes ps)) = ps"
        using decode_properties_property_list_bytes [OF w, of "[]"]
        by (simp add: decode_properties_Nil)
      ultimately have "snd (parse_metadata opts prop (property_list_bytes ps)
                              (length (property_list_bytes ps)) zap_flag m) =
                       snd (process_properties opts prop zap_flag ps m)"
        using parse_metadata_state [of "length (property_list_bytes ps)" "property_list_bytes ps"
                opts "prop" zap_flag m]
        by simp
      then show ?thesis
        using parse_metadata_other_dict [of opts "prop" "property_list_bytes ps"
                "length (property_list_bytes ps)" m]
        by (cases zap_flag) simp_all
    qed
    show "zap_properties (snd (process_properties opts prop zap_flag ps m)) k = Some v \<Longrightarrow>
            zap_properties m k = Some v \<or> (length k \<le> 255 \<and> length v < 2 ^ 32)"
      using sel oth mo [of "zap_properties m"] by (cases zap_flag) simp_all
    show "zmtp_properties (snd (process_properties opts prop zap_flag ps m)) k = Some v \<Longrightarrow>
            zmtp_properties m k = Some v \<or> (length k \<le> 255 \<and> length v < 2 ^ 32)"
      using sel oth mo [of "zmtp_properties m"] by (cases zap_flag) simp_all
  qed
  have hook: "len \<le> length ptr \<Longrightarrow>
        (\<forall>n' v' h. length n' \<le> 255 \<and> length v' < 2 ^ 32 \<longrightarrow> prop' n' v' h = prop n' v' h) \<Longrightarrow>
        parse_metadata opts prop' ptr len zap_flag m = parse_metadata opts prop ptr len zap_flag m"
    using process_properties_cong_property [of prop' "prop" ps opts zap_flag m] w
    by (simp add: parse_metadata_decode ps_def)
  have add: "\<not> (length name \<le> 255 \<and> value_len \<le> 0x7FFFFFFF) \<longrightarrow>
      add_property buf buf_capacity name value value_len = Inl AssertFailed"
    using add_property_rejects by blast
  from add st dicts process_properties_peer_id [OF w, of opts "prop" zap_flag m] hook
  show ?thesis
    by auto
qed


theorem codec_bounds_witness:
  "add_property [] 0 (replicate 256 1) [] 0 = Inl AssertFailed
   \<and> zap_properties (snd (parse_metadata
         \<lparr>type = ZMQ_REQ, routing_id_size = 0, routing_id = [], recv_routing_id = True\<rparr> property
         [1, 120, 0, 0, 0, 1, 1] 7 True (mechanism_init ()))) [120] = Some [1]
   \<and> (zap_properties (mechanism_init () :: unit mechanism_t) [120] = Some [1]
        \<or> length [120 :: byte] \<le> 255 \<and> length [1 :: byte] < 2 ^ 32)"
proof -
  let ?opts = "\<lparr>type = ZMQ_REQ, routing_id_size = 0, routing_id = [], recv_routing_id = True\<rparr>"
  have n: "\<not> (length (replicate 256 (1 :: byte)) \<le> 255 \<and> (0 :: nat) \<le> 0x7FFFFFFF)"
    by simp
  have l: "(7 :: nat) \<le> length [1, 120, 0, 0, 0, 1, 1 :: byte]"
    by simp
  have z: "zap_properties (snd (parse_metadata ?opts property
             [1, 120, 0, 0, 0, 1, 1] 7 True (mechanism_init ()))) [120] = Some [1]"
    by (simp add: parse_metadata_def parse_loop.simps loop_body_def get_uint32_def dispatch_def
          property_def record_property_def dict_insert_def mechanism_init_def
          ZMTP_PROPERTY_SOCKET_TYPE_def ZMTP_PROPERTY_IDENTITY_def cstr_def)
  from codec_bounds [of "replicate 256 1" 0 "[]" 0 "[]" 7 "[1, 120, 0, 0, 0, 1, 1]" ?opts property
      True "mechanism_init ()" "[120]" "[1]" property] n l z
  show ?thesis by blast
qed

theorem codec_bounds_counterexample:
  "property_bytes [] (replicate (2 ^ 31) 0) = [0, 128, 0, 0, 0] @ replicate (2 ^ 31) 0
   \<and> parse_metadata
         \<lparr>type = ZMQ_REQ, routing_id_size = 0, routing_id = [], recv_routing_id = True\<rparr> property
         ([0, 128, 0, 0, 0] @ replicate (2 ^ 31) 0) (5 + 2 ^ 31) True (mechanism_init ()) =
       (Inr (), \<lparr>peer_id = [], user_id = [], zmtp_properties = Map.empty,
                  zap_properties = [[] \<mapsto> replicate (2 ^ 31) 0], derived = ()\<rparr>)
   \<and> \<not> length (replicate (2 ^ 31) (0 :: byte)) \<le> 2 ^ 31 - 1"
proof -
  let ?opts = "\<lparr>type = ZMQ_REQ, routing_id_size = 0, routing_id = [], recv_routing_id = True\<rparr>"
  let ?v = "replicate (2 ^ 31) (0 :: byte)"
  have lv: "length ?v = 2 ^ 31"
    by (rule length_replicate)
  have p32: "put_uint32 (of_nat (2 ^ 31)) = [128, 0, 0, 0]"
    by (simp add: put_uint32_def)
  have b: "property_bytes [] ?v = [0, 128, 0, 0, 0] @ ?v"
    unfolding property_bytes_def lv p32 by simp
  have w: "length ([] :: byte list) \<le> 255" "length ?v < 2 ^ 32"
    unfolding lv by simp_all
  have d: "dispatch ?opts property [] ?v (length ?v) (mechanism_init ()) =
             (Inr (), mechanism_init ())"
    by (simp only: dispatch_def property_def ZMTP_PROPERTY_SOCKET_TYPE_def
          ZMTP_PROPERTY_IDENTITY_def cstr_def)
       (simp add: mechanism_init_def)
  have rp: "record_property True [] ?v (length ?v) (mechanism_init ()) =
              \<lparr>peer_id = [], user_id = [], zmtp_properties = Map.empty,
                zap_properties = [[] \<mapsto> ?v], derived = ()\<rparr>"
    by (simp only: record_property_def dict_insert_def mechanism_init_def take_all [OF order_refl])
       simp
  have len: "length (property_bytes [] ?v) + 0 = 5 + 2 ^ 31"
    unfolding length_property_bytes lv by simp
  have "parse_metadata ?opts property (property_bytes [] ?v @ []) (length (property_bytes [] ?v) + 0)
          True (mechanism_init ()) =
        (Inr (), \<lparr>peer_id = [], user_id = [], zmtp_properties = Map.empty,
                   zap_properties = [[] \<mapsto> ?v], derived = ()\<rparr>)"
    unfolding parse_metadata_property_bytes [OF w] d prod.case sum.case rp
    by (rule parse_metadata_short [of 0, simplified])
  then have p: "parse_metadata ?opts property ([0, 128, 0, 0, 0] @ ?v) (5 + 2 ^ 31)
          True (mechanism_init ()) =
        (Inr (), \<lparr>peer_id = [], user_id = [], zmtp_properties = Map.empty,
                   zap_properties = [[] \<mapsto> ?v], derived = ()\<rparr>)"
    unfolding len by (simp only: b append_Nil2)
  have big: "\<not> length ?v \<le> 2 ^ 31 - 1"
    unfolding lv by simp
  from b p big show ?thesis by (intro conjI)
qed

section \<open>The basic property set is written as it is measured\<close>


lemma length_ZMTP_names [simp]:
  "length ZMTP_PROPERTY_SOCKET_TYPE = 11" "length ZMTP_PROPERTY_IDENTITY = 8"
  by (simp_all add: ZMTP_PROPERTY_SOCKET_TYPE_def ZMTP_PROPERTY_IDENTITY_def cstr_def)







end
